theory Spec2Isabelle
  imports Complex_Main
begin

section \<open>Conventions of the embedding\<close>

text \<open>
  The theory embeds the simulation core of the random-walk program: the walker policies of
  \<^verbatim>\<open>walkers.py\<close>, the class \<^verbatim>\<open>Simulation\<close> of \<^verbatim>\<open>simulation.py\<close>, the region classes of
  \<^verbatim>\<open>terrains.py\<close> and the reduction \<^verbatim>\<open>average_escape_time\<close> of \<^verbatim>\<open>statistics.py\<close>.

  \<^item> Python floats are read as real numbers; no statement below is about rounding.
  \<^item> Mutation of an object is explicit state passing: a method returns the new object.
  \<^item> The global random generator of the module \<^verbatim>\<open>random\<close> is a tape \<open>rnd :: nat \<Rightarrow> real\<close>
    of draws from \<open>[0, 1)\<close> together with the position of the next unread draw.
  \<^item> A raised exception is the left injection of a sum type.
  \<^item> The two predicates of the geometry library (a point against a polygon, a segment
    against a polygon) are parameters, collected in a record.
\<close>

datatype error = ValueError | KeyError | IndexError | ZeroDivisionError

definition bind_result :: "error + 'a \<Rightarrow> ('a \<Rightarrow> error + 'b) \<Rightarrow> error + 'b" where
  "bind_result m f = (case m of Inl e \<Rightarrow> Inl e | Inr v \<Rightarrow> f v)"

type_synonym rng = "nat \<Rightarrow> real"

text \<open>\<^verbatim>\<open>random.uniform(a, b)\<close> is \<^verbatim>\<open>a + (b - a) * random()\<close>.\<close>

definition uniform :: "real \<Rightarrow> real \<Rightarrow> real \<Rightarrow> real" where
  "uniform a b u = a + (b - a) * u"

text \<open>
  \<^verbatim>\<open>random.choice(seq)\<close> returns \<^verbatim>\<open>seq[k]\<close> for an index \<open>k\<close> below the length; the index
  is read off one draw of the tape.
\<close>

definition randbelow :: "nat \<Rightarrow> real \<Rightarrow> nat" where
  "randbelow n u = min (n - 1) (nat \<lfloor>u * real n\<rfloor>)"

definition choice :: "'a list \<Rightarrow> real \<Rightarrow> 'a" where
  "choice xs u = xs ! randbelow (length xs) u"

text \<open>
  \<^verbatim>\<open>random.choices(population, weights)\<close> with \<open>k = 1\<close>: the running sums of the weights, a
  \<^verbatim>\<open>ValueError\<close> when their number differs from the population's or when their total is
  not positive, and otherwise the element at the insertion point of \<^verbatim>\<open>random() * total\<close>
  among all running sums but the last (the sums are ascending for non-negative weights).
\<close>

fun accumulate :: "real \<Rightarrow> real list \<Rightarrow> real list" where
  "accumulate acc [] = []"
| "accumulate acc (v # vs) = (acc + v) # accumulate (acc + v) vs"

definition bisect :: "real list \<Rightarrow> real \<Rightarrow> nat \<Rightarrow> nat" where
  "bisect a v hi = length (takeWhile (\<lambda>c. c \<le> v) (take hi a))"

definition choices :: "'a list \<Rightarrow> real list \<Rightarrow> real \<Rightarrow> error + 'a" where
  "choices population weights u =
     (let cum_weights = accumulate 0 weights; n = length population in
      if length cum_weights \<noteq> n then Inl ValueError
      else if cum_weights = [] then Inl IndexError
      else let total = last cum_weights in
        if total \<le> 0 then Inl ValueError
        else Inr (population ! bisect cum_weights (u * total) (n - 1)))"

text \<open>\<^verbatim>\<open>math.atan2\<close> and the built-in \<^verbatim>\<open>round\<close> (ties go to the even integer).\<close>

definition atan2 :: "real \<Rightarrow> real \<Rightarrow> real" where
  "atan2 b a =
     (if 0 < a then arctan (b / a)
      else if a < 0 then (if 0 \<le> b then arctan (b / a) + pi else arctan (b / a) - pi)
      else if 0 < b then pi / 2
      else if b < 0 then - (pi / 2)
      else 0)"

definition py_round :: "real \<Rightarrow> int" where
  "py_round v =
     (let f = \<lfloor>v\<rfloor>; d = v - of_int f in
      if d < 1 / 2 then f
      else if 1 / 2 < d then f + 1
      else if even f then f else f + 1)"

section \<open>Walkers (walkers.py)\<close>

type_synonym point = "real \<times> real"

text \<open>
  The classes of \<^verbatim>\<open>walkers.py\<close>: the base class and its five subclasses. No class derives
  from one of the five, so \<^verbatim>\<open>isinstance(walker, C)\<close> for a subclass \<open>C\<close> is equality of the
  kind with \<open>C\<close>.
\<close>

datatype walker_kind =
  Walker | UnitWalker | RandomDistanceWalker | StraightWalker | DirectionalBiasWalker | MemoryWalker

fun class_name :: "walker_kind \<Rightarrow> string" where
  "class_name Walker = ''Walker''"
| "class_name UnitWalker = ''UnitWalker''"
| "class_name RandomDistanceWalker = ''RandomDistanceWalker''"
| "class_name StraightWalker = ''StraightWalker''"
| "class_name DirectionalBiasWalker = ''DirectionalBiasWalker''"
| "class_name MemoryWalker = ''MemoryWalker''"

text \<open>
  The attributes \<^verbatim>\<open>_x\<close>, \<^verbatim>\<open>_y\<close>, \<^verbatim>\<open>_prev_x\<close>, \<^verbatim>\<open>_prev_y\<close>, \<^verbatim>\<open>escaped\<close>, and the attributes of
  the subclasses: \<^verbatim>\<open>_bias_probabilities\<close> (DirectionalBiasWalker) and \<^verbatim>\<open>__memory\<close>
  (MemoryWalker, whose \<^verbatim>\<open>__memory_size\<close> is the constant 1000).
\<close>

record walker =
  kind :: walker_kind
  pos_x :: real
  pos_y :: real
  prev_x :: real
  prev_y :: real
  escaped :: bool
  bias_probabilities :: "real list"
  memory :: "point list"

definition memory_size :: nat where
  "memory_size = 1000"

text \<open>
  The constructors. \<open>new_walker\<close> is \<^verbatim>\<open>Walker.__init__\<close>, which the classes without a
  constructor of their own inherit, and \<^verbatim>\<open>MemoryWalker.__init__\<close> (an empty memory).
  \<^verbatim>\<open>DirectionalBiasWalker.__init__\<close> takes the weights, five ones by default, and normalises
  them; the division raises when they sum to zero.
\<close>

definition new_walker :: "walker_kind \<Rightarrow> walker" where
  "new_walker c =
     \<lparr>kind = c, pos_x = 0, pos_y = 0, prev_x = 0, prev_y = 0, escaped = False,
      bias_probabilities = [], memory = []\<rparr>"

definition normalize_weights :: "real list \<Rightarrow> error + real list" where
  "normalize_weights weights =
     (let total = sum_list weights in
      if total \<noteq> 1 then
        (if total = 0 \<and> weights \<noteq> [] then Inl ZeroDivisionError
         else Inr (map (\<lambda>v. v / total) weights))
      else Inr weights)"

definition new_directional_bias_walker :: "real list option \<Rightarrow> error + walker" where
  "new_directional_bias_walker bias =
     (case normalize_weights (case bias of None \<Rightarrow> [1, 1, 1, 1, 1] | Some ws \<Rightarrow> ws) of
        Inl e \<Rightarrow> Inl e
      | Inr ws \<Rightarrow> Inr ((new_walker DirectionalBiasWalker)\<lparr>bias_probabilities := ws\<rparr>))"

definition get_location :: "walker \<Rightarrow> point" where
  "get_location w = (pos_x w, pos_y w)"

definition get_prev_location :: "walker \<Rightarrow> point" where
  "get_prev_location w = (prev_x w, prev_y w)"

definition move_back :: "walker \<Rightarrow> walker" where
  "move_back w = w\<lparr>pos_x := prev_x w, pos_y := prev_y w\<rparr>"

definition reset_walker :: "walker \<Rightarrow> walker" where
  "reset_walker w =
     (let w1 = w\<lparr>pos_x := 0, pos_y := 0, escaped := False\<rparr> in
      if kind w = MemoryWalker then w1\<lparr>memory := []\<rparr> else w1)"

text \<open>\<^verbatim>\<open>Walker.escape_check\<close> returns a flag and may set \<^verbatim>\<open>escaped\<close>.\<close>

definition escape_check :: "walker \<Rightarrow> bool \<times> walker" where
  "escape_check w =
     (if sqrt ((fst (get_location w))\<^sup>2 + (snd (get_location w))\<^sup>2) \<le> 10 \<and> \<not> escaped w
      then (False, w)
      else (True, w\<lparr>escaped := True\<rparr>))"

definition set_position :: "walker \<Rightarrow> point \<Rightarrow> walker" where
  "set_position w position = w\<lparr>pos_x := fst position, pos_y := snd position\<rparr>"

definition update_memory :: "walker \<Rightarrow> walker" where
  "update_memory w =
     (let w1 = w\<lparr>memory := memory w @ [(pos_x w, pos_y w)]\<rparr> in
      if memory_size < length (memory w1) then w1\<lparr>memory := tl (memory w1)\<rparr> else w1)"

definition possible_moves :: "walker \<Rightarrow> point list" where
  "possible_moves w =
     filter (\<lambda>m. m \<notin> set (memory w))
       [(pos_x w, pos_y w - 1), (pos_x w, pos_y w + 1), (pos_x w + 1, pos_y w), (pos_x w - 1, pos_y w)]"

definition angle_to_origin_distance_1 :: "walker \<Rightarrow> point option" where
  "angle_to_origin_distance_1 w =
     (let b = - pos_y w; a = - pos_x w; len = sqrt (a\<^sup>2 + b\<^sup>2) in
      if len \<noteq> 0 then Some (a / len, b / len) else None)"

definition cardinal_directions :: "point list" where
  "cardinal_directions = [(0, -1), (0, 1), (1, 0), (-1, 0)]"

text \<open>
  The method \<^verbatim>\<open>move\<close> of each class, with the tape and the position of the next draw. The
  base class does nothing (\<^verbatim>\<open>pass\<close>).
\<close>

definition snapshot :: "walker \<Rightarrow> walker" where
  "snapshot w = w\<lparr>prev_x := pos_x w, prev_y := pos_y w\<rparr>"

definition step_by :: "walker \<Rightarrow> point \<Rightarrow> walker" where
  "step_by w d = (snapshot w)\<lparr>pos_x := pos_x w + fst d, pos_y := pos_y w + snd d\<rparr>"

fun move_kind :: "walker_kind \<Rightarrow> rng \<Rightarrow> walker \<Rightarrow> nat \<Rightarrow> error + (walker \<times> nat)" where
  "move_kind Walker rnd w k = Inr (w, k)"
| "move_kind UnitWalker rnd w k =
     (let direction = uniform 0 (2 * pi) (rnd k) in
      Inr (step_by w (cos direction, sin direction), k + 1))"
| "move_kind RandomDistanceWalker rnd w k =
     (let direction = uniform 0 (2 * pi) (rnd k);
          distance = uniform (1 / 2) (3 / 2) (rnd (k + 1)) in
      Inr (step_by w (distance * cos direction, distance * sin direction), k + 2))"
| "move_kind StraightWalker rnd w k =
     (let direction = choice cardinal_directions (rnd k) in
      Inr (step_by w direction, k + 1))"
| "move_kind DirectionalBiasWalker rnd w k =
     (let directions = map Some cardinal_directions @ [angle_to_origin_distance_1 w];
          relevant_directions = List.map_filter (\<lambda>d. d) directions in
      bind_result
        (choices relevant_directions
           (take (length relevant_directions) (bias_probabilities w)) (rnd k))
        (\<lambda>chosen_direction. Inr (step_by w chosen_direction, k + 1)))"
| "move_kind MemoryWalker rnd w k =
     (if possible_moves w \<noteq> [] then
        let direction = choice (possible_moves w) (rnd k);
            w1 = (snapshot w)\<lparr>pos_x := fst direction, pos_y := snd direction\<rparr> in
        Inr (w1\<lparr>memory := memory w1 @ [(pos_x w1, pos_y w1)]\<rparr>, k + 1)
      else
        let direction = choice cardinal_directions (rnd k) in
        Inr (step_by w direction, k + 1))"

definition move :: "rng \<Rightarrow> walker \<Rightarrow> nat \<Rightarrow> error + (walker \<times> nat)" where
  "move rnd w k = move_kind (kind w) rnd w k"

section \<open>Regions and gates (terrains.py)\<close>

text \<open>
  \<^verbatim>\<open>Obstacle\<close>, \<^verbatim>\<open>Grass\<close>, \<^verbatim>\<open>Water\<close> and \<^verbatim>\<open>Sand\<close> are four classes with the same attributes and
  the same \<^verbatim>\<open>get_boundary\<close>: the polygon of the four corners, here the list of its vertices.
\<close>

record region =
  region_x :: real
  region_y :: real
  region_width :: real
  region_height :: real

definition get_boundary :: "region \<Rightarrow> point list" where
  "get_boundary r =
     [(region_x r, region_y r), (region_x r + region_width r, region_y r),
      (region_x r + region_width r, region_y r + region_height r),
      (region_x r, region_y r + region_height r)]"

record enchanted_gate =
  entrance_location :: point
  exit_location :: point
  gate_width :: real
  gate_height :: real

definition gate_get_boundary :: "enchanted_gate \<Rightarrow> point list" where
  "gate_get_boundary g =
     (let a = fst (entrance_location g); b = snd (entrance_location g) in
      [(a, b), (a + gate_width g, b), (a + gate_width g, b + gate_height g),
       (a, b + gate_height g)])"

text \<open>
  The geometry library: \<^verbatim>\<open>Point(p).intersects(polygon)\<close> and
  \<^verbatim>\<open>LineString([p, q]).intersects(polygon)\<close>.
\<close>

record geometry =
  point_intersects :: "point \<Rightarrow> point list \<Rightarrow> bool"
  line_intersects :: "point \<Rightarrow> point \<Rightarrow> point list \<Rightarrow> bool"

text \<open>
  One instance of the two predicates, used at concrete inputs: the polygon of an
  axis-parallel rectangle is the closed box spanned by its vertices; a point meets it when
  it lies in the box, a segment when some point \<open>p + t (q - p)\<close> with \<open>0 \<le> t \<le> 1\<close> does.
\<close>

definition box_of :: "point list \<Rightarrow> (real \<times> real) \<times> (real \<times> real)" where
  "box_of poly =
     ((foldr min (map fst poly) (fst (hd poly)), foldr max (map fst poly) (fst (hd poly))),
      (foldr min (map snd poly) (snd (hd poly)), foldr max (map snd poly) (snd (hd poly))))"

definition axis_window :: "real \<Rightarrow> real \<Rightarrow> real \<times> real \<Rightarrow> (real \<times> real) option" where
  "axis_window p d bounds =
     (if d = 0 then (if fst bounds \<le> p \<and> p \<le> snd bounds then Some (0, 1) else None)
      else Some (min ((fst bounds - p) / d) ((snd bounds - p) / d),
                 max ((fst bounds - p) / d) ((snd bounds - p) / d)))"

definition box_geometry :: geometry where
  "box_geometry =
     \<lparr>point_intersects = (\<lambda>p poly.
        fst (fst (box_of poly)) \<le> fst p \<and> fst p \<le> snd (fst (box_of poly)) \<and>
        fst (snd (box_of poly)) \<le> snd p \<and> snd p \<le> snd (snd (box_of poly))),
      line_intersects = (\<lambda>p q poly.
        case axis_window (fst p) (fst q - fst p) (fst (box_of poly)) of
          None \<Rightarrow> False
        | Some wx \<Rightarrow>
          (case axis_window (snd p) (snd q - snd p) (snd (box_of poly)) of
             None \<Rightarrow> False
           | Some wy \<Rightarrow> max 0 (max (fst wx) (fst wy)) \<le> min 1 (min (snd wx) (snd wy))))\<rparr>"

section \<open>The simulation (simulation.py)\<close>

text \<open>
  A dictionary that is iterated is an association list in insertion order; assigning to
  a present key keeps its place, assigning to a new key appends. The dictionaries that are
  only read and written by key are maps.
\<close>

fun dict_set :: "('k \<times> 'v) list \<Rightarrow> 'k \<Rightarrow> 'v \<Rightarrow> ('k \<times> 'v) list" where
  "dict_set [] k v = [(k, v)]"
| "dict_set ((k', v') # kvs) k v =
     (if k' = k then (k, v) # kvs else (k', v') # dict_set kvs k v)"

record step_record =
  locations :: point
  escape_time :: "int option"
  y_crosses :: int
  distance_from_origin :: real
  distance_from_x :: real
  distance_from_y :: real

record simulation =
  num_moves :: int
  walkers :: "(string \<times> walker) list"
  obstacles :: "region list"
  enchanted_gates :: "enchanted_gate list"
  escape_times :: "string \<Rightarrow> int option option"
  crosses_y :: "string \<Rightarrow> int option"
  total_dict :: "(string \<times> (int \<times> step_record) list) list"
  sands :: "region list"
  waters :: "region list"
  grasses :: "region list"
  walkers_interaction :: "string option"

definition new_simulation :: "int \<Rightarrow> simulation" where
  "new_simulation n =
     \<lparr>num_moves = n, walkers = [], obstacles = [], enchanted_gates = [],
      escape_times = Map.empty, crosses_y = Map.empty, total_dict = [],
      sands = [], waters = [], grasses = [], walkers_interaction = None\<rparr>"

definition set_interaction :: "simulation \<Rightarrow> string option \<Rightarrow> error + simulation" where
  "set_interaction sim interaction =
     (if interaction \<noteq> None \<and> interaction \<noteq> Some [] \<and>
         interaction \<noteq> Some ''attract'' \<and> interaction \<noteq> Some ''repel''
      then Inl ValueError
      else Inr (sim\<lparr>walkers_interaction := interaction\<rparr>))"

subsection \<open>Registering a walker\<close>

text \<open>\<^verbatim>\<open>str(index)\<close> for a non-negative integer: its decimal digits.\<close>

definition digit_char :: "nat \<Rightarrow> char" where
  "digit_char d = ''0123456789'' ! d"

function str_nat :: "nat \<Rightarrow> string" where
  "str_nat n = (if n < 10 then [digit_char n] else str_nat (n div 10) @ [digit_char (n mod 10)])"
  by pat_completeness auto
termination
  by (relation "measure (\<lambda>n. n)") auto

declare str_nat.simps [simp del]

definition digit_val :: "char \<Rightarrow> nat" where
  "digit_val c = length (takeWhile (\<lambda>d. d \<noteq> c) ''0123456789'')"

definition nat_of_str :: "string \<Rightarrow> nat" where
  "nat_of_str s = foldl (\<lambda>a c. 10 * a + digit_val c) 0 s"

lemma digit_val_digit_char: "d < 10 \<Longrightarrow> digit_val (digit_char d) = d"
proof -
  assume "d < 10"
  then have "d \<in> {0, 1, 2, 3, 4, 5, 6, 7, 8, 9}" by auto
  then show ?thesis
    by (auto simp: digit_val_def digit_char_def)
qed

lemma nat_of_str_snoc: "nat_of_str (s @ [c]) = 10 * nat_of_str s + digit_val c"
  by (simp add: nat_of_str_def)

lemma nat_of_str_str_nat: "nat_of_str (str_nat n) = n"
proof (induction n rule: str_nat.induct)
  case (1 n)
  show ?case
  proof (cases "n < 10")
    case True
    then show ?thesis
      by (subst str_nat.simps) (simp add: nat_of_str_def digit_val_digit_char)
  next
    case False
    with "1" have "nat_of_str (str_nat (n div 10)) = n div 10" by simp
    with False show ?thesis
      by (subst str_nat.simps) (simp add: nat_of_str_snoc digit_val_digit_char)
  qed
qed

lemma str_nat_inject: "str_nat m = str_nat n \<Longrightarrow> m = n"
  by (metis nat_of_str_str_nat)

text \<open>
  The loop \<^verbatim>\<open>while type(walker).__name__ + str(index) in self.__walkers: index += 1\<close>, over
  the keys of the dictionary.
\<close>

function find_index :: "string list \<Rightarrow> string \<Rightarrow> nat \<Rightarrow> nat" where
  "find_index keys cls index =
     (if cls @ str_nat index \<in> set keys then find_index keys cls (index + 1) else index)"
  by pat_completeness auto
termination
proof (relation "measure (\<lambda>(keys, cls, index). card {k \<in> set keys. \<exists>j\<ge>index. k = cls @ str_nat j})")
  show "wf (measure (\<lambda>(keys, cls, index). card {k \<in> set keys. \<exists>j\<ge>index. k = cls @ str_nat j}))"
    by simp
next
  fix keys :: "string list" and cls :: string and index :: nat
  assume member: "cls @ str_nat index \<in> set keys"
  let ?S = "\<lambda>i. {k \<in> set keys. \<exists>j\<ge>i. k = cls @ str_nat j}"
  have "cls @ str_nat index \<in> ?S index"
    using member by auto
  moreover have "cls @ str_nat index \<notin> ?S (index + 1)"
    using str_nat_inject by fastforce
  moreover have "?S (index + 1) \<subseteq> ?S index"
  proof
    fix k
    assume "k \<in> ?S (index + 1)"
    then obtain j where "k \<in> set keys" "index + 1 \<le> j" "k = cls @ str_nat j"
      by blast
    then have "k \<in> set keys" "index \<le> j" "k = cls @ str_nat j"
      by simp_all
    then show "k \<in> ?S index"
      by blast
  qed
  ultimately have "?S (index + 1) \<subset> ?S index"
    by blast
  then have "card (?S (index + 1)) < card (?S index)"
    by (intro psubset_card_mono) auto
  then show "((keys, cls, index + 1), (keys, cls, index))
      \<in> measure (\<lambda>(keys, cls, index). card {k \<in> set keys. \<exists>j\<ge>index. k = cls @ str_nat j})"
    by simp
qed

declare find_index.simps [simp del]

text \<open>
  \<^verbatim>\<open>add_walker\<close>. Its argument is a walker, so the \<^verbatim>\<open>TypeError\<close> branch for other objects has
  no counterpart.
\<close>

definition new_walker_name :: "simulation \<Rightarrow> walker \<Rightarrow> string" where
  "new_walker_name sim w =
     (let index = find_index (map fst (walkers sim)) (class_name (kind w)) 1 in
      class_name (kind w) @ str_nat index)"

definition add_walker :: "simulation \<Rightarrow> walker \<Rightarrow> simulation" where
  "add_walker sim w =
     (let walker_name = new_walker_name sim w in
      sim\<lparr>walkers := dict_set (walkers sim) walker_name w,
          escape_times := (escape_times sim)(walker_name \<mapsto> None),
          crosses_y := (crosses_y sim)(walker_name \<mapsto> - 1),
          total_dict := dict_set (total_dict sim) walker_name []\<rparr>)"

subsection \<open>Choosing a move\<close>

text \<open>
  \<^verbatim>\<open>locate_nearest_walker\<close>: the loop over the registered walkers with the running minimum
  (\<open>None\<close> is the initial pair of infinity and \<^verbatim>\<open>None\<close>). The walker itself is skipped; it is
  recognised by the name under which it is registered, every walker object being
  registered once.
\<close>

fun nearest_loop ::
  "point \<Rightarrow> string \<Rightarrow> (string \<times> walker) list \<Rightarrow> (real \<times> walker) option \<Rightarrow> (real \<times> walker) option"
where
  "nearest_loop loc name [] best = best"
| "nearest_loop loc name ((walker_name, other_walker) # rest) best =
     (if walker_name \<noteq> name then
        let distance = sqrt ((fst (get_location other_walker) - fst loc)\<^sup>2 +
                             (snd (get_location other_walker) - snd loc)\<^sup>2) in
        (case best of
           None \<Rightarrow> nearest_loop loc name rest (Some (distance, other_walker))
         | Some (min_distance, nearest_walker) \<Rightarrow>
             if distance < min_distance
             then nearest_loop loc name rest (Some (distance, other_walker))
             else nearest_loop loc name rest best)
      else nearest_loop loc name rest best)"

definition locate_nearest_walker :: "simulation \<Rightarrow> string \<Rightarrow> walker \<Rightarrow> error + walker" where
  "locate_nearest_walker sim name w =
     (case nearest_loop (get_location w) name (walkers sim) None of
        None \<Rightarrow> Inl ValueError
      | Some (min_distance, nearest_walker) \<Rightarrow> Inr nearest_walker)"

text \<open>
  The test \<^verbatim>\<open>not isinstance(walker, UnitWalker) or isinstance(walker, RandomDistanceWalker)\<close>
  that guards the rounding of the bearing.
\<close>

definition rounds_direction :: "walker \<Rightarrow> bool" where
  "rounds_direction w \<longleftrightarrow> kind w \<noteq> UnitWalker \<or> kind w = RandomDistanceWalker"

definition round_direction :: "real \<Rightarrow> real" where
  "round_direction direction_vector = of_int (py_round (direction_vector / (pi / 2))) * (pi / 2)"

definition choose_move ::
  "rng \<Rightarrow> simulation \<Rightarrow> string \<Rightarrow> walker \<Rightarrow> nat \<Rightarrow> error + (walker \<times> nat)"
where
  "choose_move rnd sim name w k =
     (case walkers_interaction sim of
        None \<Rightarrow> move rnd w k
      | Some interaction \<Rightarrow>
         (case locate_nearest_walker sim name w of
            Inl e \<Rightarrow> Inl e
          | Inr nearest_walker \<Rightarrow>
             let prob = rnd k;
                 distance = (if kind w = RandomDistanceWalker
                             then uniform (1 / 2) (3 / 2) (rnd (k + 1)) else 1);
                 k1 = (if kind w = RandomDistanceWalker then k + 2 else k + 1)
             in
             if prob \<le> 2 / 10 then
               let atan = atan2 (snd (get_location nearest_walker) - snd (get_location w))
                                (fst (get_location nearest_walker) - fst (get_location w));
                   direction_vector = (if atan < 0 then atan + 2 * pi else atan);
                   rounded = (if rounds_direction w then round_direction direction_vector
                              else direction_vector)
               in
               if interaction = ''attract'' then
                 let w1 = set_position w
                            (fst (get_location w) + cos rounded * distance,
                             snd (get_location w) + sin rounded * distance)
                 in Inr (if kind w = MemoryWalker then update_memory w1 else w1, k1)
               else if interaction = ''repel'' then
                 let w1 = set_position w
                            (fst (get_location w) - cos rounded * distance,
                             snd (get_location w) - sin rounded * distance)
                 in Inr (if kind w = MemoryWalker then update_memory w1 else w1, k1)
               else Inr (w, k1)
             else move rnd w k1))"

subsection \<open>Terrain, collisions and gates\<close>

fun on_any :: "geometry \<Rightarrow> point \<Rightarrow> region list \<Rightarrow> bool" where
  "on_any G p [] = False"
| "on_any G p (r # rs) = (if point_intersects G p (get_boundary r) then True else on_any G p rs)"

text \<open>\<^verbatim>\<open>terrain_check\<close> returns a string or \<^verbatim>\<open>False\<close> (here \<open>None\<close>).\<close>

definition terrain_check :: "geometry \<Rightarrow> simulation \<Rightarrow> walker \<Rightarrow> string option" where
  "terrain_check G sim w =
     (if on_any G (get_location w) (waters sim) then Some ''water''
      else if on_any G (get_location w) (sands sim) then Some ''sand''
      else if on_any G (get_location w) (grasses sim) then Some ''grass''
      else None)"

definition handle_terrain :: "walker \<Rightarrow> string option \<Rightarrow> walker" where
  "handle_terrain w terrain =
     (let w1 =
        (if terrain = Some ''water'' then set_position w (0, 0)
         else if terrain = Some ''sand'' then
           set_position w ((fst (get_prev_location w) + fst (get_location w)) / 2,
                           (snd (get_prev_location w) + snd (get_location w)) / 2)
         else if terrain = Some ''grass'' then
           let vector0 = (fst (get_location w) - fst (get_prev_location w),
                          snd (get_location w) - snd (get_prev_location w));
               vector = (fst vector0 * 2, snd vector0 * 2)
           in set_position w (fst (get_location w) + fst vector, snd (get_location w) + snd vector)
         else w)
      in if kind w = MemoryWalker then update_memory w1 else w1)"

fun collides :: "geometry \<Rightarrow> walker \<Rightarrow> region list \<Rightarrow> bool" where
  "collides G w [] = False"
| "collides G w (obstacle # rest) =
     (if line_intersects G (get_prev_location w) (get_location w) (get_boundary obstacle)
      then True else collides G w rest)"

definition check_collision :: "geometry \<Rightarrow> simulation \<Rightarrow> walker \<Rightarrow> bool" where
  "check_collision G sim w = collides G w (obstacles sim)"

text \<open>
  \<^verbatim>\<open>gate_check\<close>: the loop over the gates. The trajectory is built anew in every round from
  the walker's previous and current location, and no round ends the loop.
\<close>

fun gate_loop :: "geometry \<Rightarrow> enchanted_gate list \<Rightarrow> walker \<Rightarrow> walker" where
  "gate_loop G [] w = w"
| "gate_loop G (gate # rest) w =
     (if line_intersects G (get_prev_location w) (get_location w) (gate_get_boundary gate)
      then let w1 = set_position w (exit_location gate) in
           gate_loop G rest (if kind w = MemoryWalker then update_memory w1 else w1)
      else gate_loop G rest w)"

definition gate_check :: "geometry \<Rightarrow> simulation \<Rightarrow> walker \<Rightarrow> walker" where
  "gate_check G sim w = gate_loop G (enchanted_gates sim) w"

subsection \<open>Bookkeeping of a step\<close>

definition cross_y_check :: "simulation \<Rightarrow> string \<Rightarrow> walker \<Rightarrow> error + simulation" where
  "cross_y_check sim walker_name w =
     (if fst (get_location w) * fst (get_prev_location w) < 0 \<or>
         (fst (get_prev_location w) = 0 \<and> fst (get_location w) \<noteq> 0)
      then (case crosses_y sim walker_name of
              None \<Rightarrow> Inl KeyError
            | Some c \<Rightarrow> Inr (sim\<lparr>crosses_y := (crosses_y sim)(walker_name \<mapsto> c + 1)\<rparr>))
      else Inr sim)"

text \<open>\<^verbatim>\<open>Simulation.escape_check\<close>; the walker's own \<^verbatim>\<open>escape_check\<close> may set its flag.\<close>

definition sim_escape_check ::
  "simulation \<Rightarrow> string \<Rightarrow> walker \<Rightarrow> int \<Rightarrow> simulation \<times> walker"
where
  "sim_escape_check sim walker_name w i =
     (let (has_escaped, w1) = escape_check w in
      if \<not> has_escaped
      then (sim\<lparr>escape_times := (escape_times sim)(walker_name \<mapsto> Some i)\<rparr>, w1)
      else (sim, w1))"

definition simulation_results_update ::
  "simulation \<Rightarrow> string \<Rightarrow> walker \<Rightarrow> int \<Rightarrow> error + (simulation \<times> walker)"
where
  "simulation_results_update sim walker_name w i =
     (let (has_escaped, w1) = escape_check w in
      case (if has_escaped
            then (case escape_times sim walker_name of None \<Rightarrow> Inl KeyError | Some t \<Rightarrow> Inr t)
            else Inr None) of
        Inl e \<Rightarrow> Inl e
      | Inr t \<Rightarrow>
        (case crosses_y sim walker_name of
           None \<Rightarrow> Inl KeyError
         | Some c \<Rightarrow>
           (case map_of (total_dict sim) walker_name of
              None \<Rightarrow> Inl KeyError
            | Some steps \<Rightarrow>
              Inr (sim\<lparr>total_dict := dict_set (total_dict sim) walker_name
                     (dict_set steps i
                        \<lparr>locations = get_location w1,
                         escape_time = t,
                         y_crosses = max 0 c,
                         distance_from_origin =
                           sqrt ((fst (get_location w1))\<^sup>2 + (snd (get_location w1))\<^sup>2),
                         distance_from_x = \<bar>snd (get_location w1)\<bar>,
                         distance_from_y = \<bar>fst (get_location w1)\<bar>\<rparr>)\<rparr>, w1))))"

subsection \<open>Running the simulation\<close>

text \<open>
  The body of the inner loop of \<^verbatim>\<open>run_simulation\<close> for one walker: the first move with its
  terrain effect, the loop that retries while the move collides, and the bookkeeping. The
  walker object is changed in place; \<open>store\<close> writes its new state under its name.
\<close>

definition store :: "simulation \<Rightarrow> string \<Rightarrow> walker \<Rightarrow> simulation" where
  "store sim name w = sim\<lparr>walkers := dict_set (walkers sim) name w\<rparr>"

definition first_move ::
  "geometry \<Rightarrow> rng \<Rightarrow> simulation \<Rightarrow> string \<Rightarrow> walker \<Rightarrow> nat \<Rightarrow> error + (walker \<times> nat)"
where
  "first_move G rnd sim name w k =
     (case choose_move rnd sim name w k of
        Inl e \<Rightarrow> Inl e
      | Inr (w1, k1) \<Rightarrow> Inr (handle_terrain w1 (terrain_check G sim w1), k1))"

definition retry_move ::
  "geometry \<Rightarrow> rng \<Rightarrow> simulation \<Rightarrow> string \<Rightarrow> walker \<Rightarrow> nat \<Rightarrow> error + (walker \<times> nat)"
where
  "retry_move G rnd sim name w k =
     (case choose_move rnd sim name (move_back w) k of
        Inl e \<Rightarrow> Inl e
      | Inr (w1, k1) \<Rightarrow>
          let terrain = terrain_check G sim w1 in
          Inr (if terrain \<noteq> None then handle_terrain w1 terrain else w1, k1))"

definition max_collision_attempts :: nat where
  "max_collision_attempts = 1000"

text \<open>
  The \<^verbatim>\<open>while self.check_collision(walker)\<close> loop. The flag of the result is \<open>False\<close> when
  the loop leaves \<^verbatim>\<open>run_simulation\<close> through \<^verbatim>\<open>return False\<close>.
\<close>

function collision_loop ::
  "geometry \<Rightarrow> rng \<Rightarrow> simulation \<Rightarrow> string \<Rightarrow> nat \<Rightarrow> walker \<Rightarrow> nat \<Rightarrow> error + (bool \<times> walker \<times> nat)"
where
  "collision_loop G rnd sim name collision_attempts w k =
     (if check_collision G sim w then
        if collision_attempts \<ge> max_collision_attempts then Inr (False, w, k)
        else (case retry_move G rnd sim name w k of
                Inl e \<Rightarrow> Inl e
              | Inr (w1, k1) \<Rightarrow> collision_loop G rnd sim name (collision_attempts + 1) w1 k1)
      else Inr (True, w, k))"
  by pat_completeness auto
termination
  by (relation "measure (\<lambda>(G, rnd, sim, name, collision_attempts, w, k).
        max_collision_attempts - collision_attempts)") auto

declare collision_loop.simps [simp del]

definition bookkeeping ::
  "simulation \<Rightarrow> string \<Rightarrow> walker \<Rightarrow> int \<Rightarrow> error + (simulation \<times> walker)"
where
  "bookkeeping sim name w i =
     (let (sim1, w1) = sim_escape_check sim name w i in
      case cross_y_check sim1 name w1 of
        Inl e \<Rightarrow> Inl e
      | Inr sim2 \<Rightarrow> simulation_results_update sim2 name w1 i)"

definition walker_turn ::
  "geometry \<Rightarrow> rng \<Rightarrow> int \<Rightarrow> string \<Rightarrow> simulation \<times> nat \<Rightarrow> error + (bool \<times> simulation \<times> nat)"
where
  "walker_turn G rnd i name s =
     (let sim = fst s; k = snd s in
      case map_of (walkers sim) name of
        None \<Rightarrow> Inl KeyError
      | Some w \<Rightarrow>
        (case first_move G rnd sim name w k of
           Inl e \<Rightarrow> Inl e
         | Inr (w1, k1) \<Rightarrow>
           (case collision_loop G rnd sim name 0 w1 k1 of
              Inl e \<Rightarrow> Inl e
            | Inr (finished, w2, k2) \<Rightarrow>
              if \<not> finished then Inr (False, store sim name w2, k2)
              else
                let w3 = (if kind w2 = MemoryWalker then update_memory w2 else w2);
                    w4 = gate_check G sim w3
                in (case bookkeeping sim name w4 i of
                      Inl e \<Rightarrow> Inl e
                    | Inr (sim1, w5) \<Rightarrow> Inr (True, store sim1 name w5, k2)))))"

fun run_walkers ::
  "geometry \<Rightarrow> rng \<Rightarrow> int \<Rightarrow> string list \<Rightarrow> simulation \<times> nat \<Rightarrow> error + (bool \<times> simulation \<times> nat)"
where
  "run_walkers G rnd i [] s = Inr (True, s)"
| "run_walkers G rnd i (walker_name # rest) s =
     (case walker_turn G rnd i walker_name s of
        Inl e \<Rightarrow> Inl e
      | Inr (continue, s1) \<Rightarrow> if continue then run_walkers G rnd i rest s1 else Inr (False, s1))"

fun run_steps ::
  "geometry \<Rightarrow> rng \<Rightarrow> int list \<Rightarrow> simulation \<times> nat \<Rightarrow> error + (bool \<times> simulation \<times> nat)"
where
  "run_steps G rnd [] s = Inr (True, s)"
| "run_steps G rnd (i # rest) s =
     (case run_walkers G rnd i (map fst (walkers (fst s))) s of
        Inl e \<Rightarrow> Inl e
      | Inr (continue, s1) \<Rightarrow> if continue then run_steps G rnd rest s1 else Inr (False, s1))"

text \<open>\<^verbatim>\<open>run_simulation\<close>: the steps are \<^verbatim>\<open>range(1, num_moves + 1)\<close>.\<close>

definition run_simulation ::
  "geometry \<Rightarrow> rng \<Rightarrow> simulation \<Rightarrow> nat \<Rightarrow> error + (bool \<times> simulation \<times> nat)"
where
  "run_simulation G rnd sim k = run_steps G rnd [1..num_moves sim] (sim, k)"

definition reset :: "simulation \<Rightarrow> simulation" where
  "reset sim =
     (let ws = map (\<lambda>(walker_name, w). (walker_name, reset_walker w)) (walkers sim) in
      sim\<lparr>walkers := ws,
          escape_times := map_of (map (\<lambda>(walker_name, w). (walker_name, None)) ws),
          crosses_y := map_of (map (\<lambda>(walker_name, w). (walker_name, - 1)) ws),
          total_dict := map (\<lambda>(walker_name, w). (walker_name, [])) ws\<rparr>)"

section \<open>Statistics (statistics.py)\<close>

text \<open>
  The accumulator of \<^verbatim>\<open>Statistics\<close>: walker name, run index, step index, step record.
\<close>

type_synonym run_table = "(int \<times> step_record) list"







section \<open>Basic facts about the embedding\<close>

lemma on_any_iff: "on_any G p rs \<longleftrightarrow> (\<exists>r\<in>set rs. point_intersects G p (get_boundary r))"
  by (induction rs) auto

lemma get_location_update_memory: "get_location (update_memory w) = get_location w"
  by (simp add: update_memory_def get_location_def Let_def)

lemma get_prev_location_update_memory: "get_prev_location (update_memory w) = get_prev_location w"
  by (simp add: update_memory_def get_prev_location_def Let_def)

lemma get_location_set_position: "get_location (set_position w p) = p"
  by (simp add: set_position_def get_location_def)

lemma get_prev_location_set_position: "get_prev_location (set_position w p) = get_prev_location w"
  by (simp add: set_position_def get_prev_location_def)

lemma find_index_props:
  "index0 \<le> find_index keys cls index0 \<and>
   cls @ str_nat (find_index keys cls index0) \<notin> set keys \<and>
   (\<forall>j. index0 \<le> j \<and> j < find_index keys cls index0 \<longrightarrow> cls @ str_nat j \<in> set keys)"
proof (induction keys cls index0 rule: find_index.induct)
  case (1 keys cls index)
  show ?case
  proof (cases "cls @ str_nat index \<in> set keys")
    case True
    then have eq: "find_index keys cls index = find_index keys cls (index + 1)"
      by (subst find_index.simps) simp
    from "1" True have ih:
      "index + 1 \<le> find_index keys cls (index + 1)"
      "cls @ str_nat (find_index keys cls (index + 1)) \<notin> set keys"
      "\<forall>j. index + 1 \<le> j \<and> j < find_index keys cls (index + 1) \<longrightarrow> cls @ str_nat j \<in> set keys"
      by simp_all
    have "\<forall>j. index \<le> j \<and> j < find_index keys cls (index + 1) \<longrightarrow> cls @ str_nat j \<in> set keys"
    proof (intro allI impI)
      fix j
      assume j: "index \<le> j \<and> j < find_index keys cls (index + 1)"
      show "cls @ str_nat j \<in> set keys"
      proof (cases "j = index")
        case True
        with \<open>cls @ str_nat index \<in> set keys\<close> show ?thesis by simp
      next
        case False
        with j have "index + 1 \<le> j \<and> j < find_index keys cls (index + 1)" by simp
        with ih(3) show ?thesis by blast
      qed
    qed
    with ih eq show ?thesis by simp
  next
    case False
    then have "find_index keys cls index = index"
      by (subst find_index.simps) simp
    with False show ?thesis by auto
  qed
qed

lemma dict_set_fresh: "k \<notin> fst ` set kvs \<Longrightarrow> dict_set kvs k v = kvs @ [(k, v)]"
  by (induction kvs) auto

lemma map_of_dict_set: "map_of (dict_set kvs k v) = (map_of kvs)(k \<mapsto> v)"
  by (induction kvs) (auto simp: fun_eq_iff)

lemma map_fst_dict_set:
  "map fst (dict_set kvs k v) = (if k \<in> fst ` set kvs then map fst kvs else map fst kvs @ [k])"
proof (induction kvs)
  case Nil
  show ?case by simp
next
  case (Cons kv kvs)
  obtain k' v' where kv: "kv = (k', v')" by (cases kv)
  show ?case
  proof (cases "k' = k")
    case True
    then show ?thesis by (simp add: kv)
  next
    case False
    then have "k \<in> fst ` set (kv # kvs) \<longleftrightarrow> k \<in> fst ` set kvs"
      by (auto simp: kv)
    with False Cons show ?thesis by (simp add: kv)
  qed
qed

lemma new_walker_name_fresh: "new_walker_name sim w \<notin> fst ` set (walkers sim)"
  using find_index_props [of 1 "map fst (walkers sim)" "class_name (kind w)"]
  by (simp add: new_walker_name_def)

lemma walkers_add_walker: "walkers (add_walker sim w) = walkers sim @ [(new_walker_name sim w, w)]"
  by (simp add: add_walker_def Let_def dict_set_fresh new_walker_name_fresh)

lemma walkers_foldl_add_walker:
  "map snd (walkers (foldl add_walker sim ws)) = map snd (walkers sim) @ ws \<and>
   (distinct (map fst (walkers sim)) \<longrightarrow> distinct (map fst (walkers (foldl add_walker sim ws))))"
proof (induction ws arbitrary: sim)
  case Nil
  show ?case by simp
next
  case (Cons w ws)
  have "distinct (map fst (walkers sim)) \<longrightarrow> distinct (map fst (walkers (add_walker sim w)))"
    using new_walker_name_fresh [of sim w] by (simp add: walkers_add_walker)
  with Cons [of "add_walker sim w"] show ?case
    by (simp add: walkers_add_walker)
qed


lemma str_nat_1: "str_nat (Suc 0) = ''1''"
  by (subst str_nat.simps) (simp add: digit_char_def)

lemma str_nat_2: "str_nat (Suc (Suc 0)) = ''2''"
  by (subst str_nat.simps) (simp add: digit_char_def)

lemma find_index_step: "cls @ str_nat index \<in> set keys \<Longrightarrow> find_index keys cls index = find_index keys cls (Suc index)"
  by (subst find_index.simps) simp

lemma find_index_stop: "cls @ str_nat index \<notin> set keys \<Longrightarrow> find_index keys cls index = index"
  by (subst find_index.simps) simp

lemma kind_new_walker: "kind (new_walker c) = c"
  by (simp add: new_walker_def)

lemma name_first: "new_walker_name (new_simulation n) (new_walker StraightWalker) = ''StraightWalker1''"
  by (simp add: new_walker_name_def new_simulation_def kind_new_walker find_index_stop str_nat_1)

lemma walkers_first:
  "walkers (add_walker (new_simulation n) (new_walker StraightWalker)) =
     [(''StraightWalker1'', new_walker StraightWalker)]"
  by (simp add: walkers_add_walker name_first) (simp add: new_simulation_def)

lemma name_second:
  "new_walker_name (add_walker (new_simulation n) (new_walker StraightWalker)) (new_walker StraightWalker)
     = ''StraightWalker2''"
proof -
  have "find_index [''StraightWalker1''] ''StraightWalker'' (Suc 0) = Suc (Suc 0)"
    by (simp add: find_index_step find_index_stop str_nat_1 str_nat_2)
  then show ?thesis
    by (simp add: new_walker_name_def walkers_first str_nat_2 kind_new_walker)
qed


section \<open>Terrain effects\<close>

text \<open>
  Claim C8. After a raw move the walker's location is tested against the water regions, then
  the sand regions, then the grass regions, and the first match decides: water puts the
  walker at the origin, sand at the midpoint of its previous and its new location, grass at
  the new location plus twice the vector from the previous to the new location; without a
  match the location stays.
\<close>

theorem terrain_effect_first_match:
  "get_location (handle_terrain w (terrain_check G sim w)) =
     (if \<exists>r\<in>set (waters sim). point_intersects G (get_location w) (get_boundary r) then (0, 0)
      else if \<exists>r\<in>set (sands sim). point_intersects G (get_location w) (get_boundary r)
        then ((prev_x w + pos_x w) / 2, (prev_y w + pos_y w) / 2)
      else if \<exists>r\<in>set (grasses sim). point_intersects G (get_location w) (get_boundary r)
        then (pos_x w + 2 * (pos_x w - prev_x w), pos_y w + 2 * (pos_y w - prev_y w))
      else (pos_x w, pos_y w))"
  by (simp add: handle_terrain_def terrain_check_def on_any_iff Let_def
      get_location_update_memory get_location_set_position)
    (simp add: get_location_def get_prev_location_def)

text \<open>
  A walker that stepped from the origin to \<open>(1, 0)\<close> onto a strip of sand ends at
  \<open>(1/2, 0)\<close>.
\<close>

definition sand_strip :: simulation where
  "sand_strip =
     (new_simulation 1)\<lparr>sands :=
        [\<lparr>region_x = 1 / 2, region_y = - 1, region_width = 1, region_height = 2\<rparr>]\<rparr>"

theorem terrain_effect_first_match_witness:
  "get_location (handle_terrain (step_by (new_walker StraightWalker) (1, 0))
      (terrain_check box_geometry sand_strip (step_by (new_walker StraightWalker) (1, 0))))
     = (1 / 2, 0)"
  using terrain_effect_first_match
    [of "step_by (new_walker StraightWalker) (1, 0)" box_geometry sand_strip]
  by (simp add: sand_strip_def new_simulation_def step_by_def snapshot_def new_walker_def
      get_location_def box_geometry_def box_of_def get_boundary_def)

section \<open>Registering walkers\<close>

text \<open>
  Claim C10. \<^verbatim>\<open>add_walker\<close> stores the walker under its class name followed by the smallest
  positive integer for which that key is unused. The key is new, so the walker is appended
  and no registered walker is replaced; after the call the new walker's escape time is
  \<^verbatim>\<open>None\<close>, its crossing counter is \<open>-1\<close> and its table of step records is empty. For every
  sequence of calls the registered walkers are the earlier ones followed by the added
  ones, under distinct keys.
\<close>

theorem add_walker_fresh_key:
  "(\<exists>index\<ge>1. new_walker_name sim w = class_name (kind w) @ str_nat index \<and>
      (\<forall>j. 1 \<le> j \<and> j < index \<longrightarrow> class_name (kind w) @ str_nat j \<in> fst ` set (walkers sim))) \<and>
   new_walker_name sim w \<notin> fst ` set (walkers sim) \<and>
   walkers (add_walker sim w) = walkers sim @ [(new_walker_name sim w, w)] \<and>
   escape_times (add_walker sim w) (new_walker_name sim w) = Some None \<and>
   crosses_y (add_walker sim w) (new_walker_name sim w) = Some (- 1) \<and>
   map_of (total_dict (add_walker sim w)) (new_walker_name sim w) = Some [] \<and>
   map snd (walkers (foldl add_walker sim ws)) = map snd (walkers sim) @ ws \<and>
   (distinct (map fst (walkers sim)) \<longrightarrow> distinct (map fst (walkers (foldl add_walker sim ws))))"
proof -
  let ?index = "find_index (map fst (walkers sim)) (class_name (kind w)) 1"
  have "1 \<le> ?index \<and> new_walker_name sim w = class_name (kind w) @ str_nat ?index \<and>
      (\<forall>j. 1 \<le> j \<and> j < ?index \<longrightarrow> class_name (kind w) @ str_nat j \<in> fst ` set (walkers sim))"
    using find_index_props [of 1 "map fst (walkers sim)" "class_name (kind w)"]
    by (simp add: new_walker_name_def)
  then have first: "\<exists>index\<ge>1. new_walker_name sim w = class_name (kind w) @ str_nat index \<and>
      (\<forall>j. 1 \<le> j \<and> j < index \<longrightarrow> class_name (kind w) @ str_nat j \<in> fst ` set (walkers sim))"
    by blast
  have rest: "escape_times (add_walker sim w) (new_walker_name sim w) = Some None"
    "crosses_y (add_walker sim w) (new_walker_name sim w) = Some (- 1)"
    "map_of (total_dict (add_walker sim w)) (new_walker_name sim w) = Some []"
    by (simp_all add: add_walker_def Let_def map_of_dict_set)
  from first rest new_walker_name_fresh walkers_add_walker walkers_foldl_add_walker
  show ?thesis by blast
qed


theorem add_walker_fresh_key_witness:
  "walkers (add_walker (add_walker (new_simulation 5) (new_walker StraightWalker)) (new_walker StraightWalker))
     = [(''StraightWalker1'', new_walker StraightWalker), (''StraightWalker2'', new_walker StraightWalker)]"
proof -
  let ?S = "add_walker (new_simulation 5) (new_walker StraightWalker)"
  let ?W = "new_walker StraightWalker"
  have "walkers (add_walker ?S ?W) = walkers ?S @ [(new_walker_name ?S ?W, ?W)]"
    using add_walker_fresh_key [of ?S ?W "[]"] by blast
  then show ?thesis
    by (simp add: name_second walkers_first)
qed

section \<open>Crossings of the y-axis\<close>

text \<open>
  The condition for a crossing in the words of the specification: the signs of the previous
  and of the new x-coordinate differ, or the previous one is zero and the new one is not.
\<close>

definition spec_crossing :: "real \<Rightarrow> real \<Rightarrow> bool" where
  "spec_crossing x_prev x_new \<longleftrightarrow> sgn x_prev \<noteq> sgn x_new \<or> (x_prev = 0 \<and> x_new \<noteq> 0)"

text \<open>
  A walker whose x-coordinate takes the given values one after the other, each move
  recording the location before it, with \<^verbatim>\<open>cross_y_check\<close> after every move.
\<close>

fun walk_x :: "simulation \<Rightarrow> string \<Rightarrow> walker \<Rightarrow> real list \<Rightarrow> error + simulation" where
  "walk_x sim name w [] = Inr sim"
| "walk_x sim name w (x_new # rest) =
     (let w1 = (snapshot w)\<lparr>pos_x := x_new\<rparr> in
      case cross_y_check sim name w1 of
        Inl e \<Rightarrow> Inl e
      | Inr sim1 \<Rightarrow> walk_x sim1 name w1 rest)"

definition one_straight_walker :: simulation where
  "one_straight_walker = add_walker (new_simulation 3) (new_walker StraightWalker)"

lemma cross_y_check_result:
  "crosses_y sim name = Some c \<Longrightarrow>
   \<exists>sim'. cross_y_check sim name w = Inr sim' \<and>
     crosses_y sim' name =
       Some (if prev_x w * pos_x w < 0 \<or> (prev_x w = 0 \<and> pos_x w \<noteq> 0) then c + 1 else c)"
  by (simp add: cross_y_check_def get_location_def get_prev_location_def mult.commute)

lemma walk_x_step:
  assumes "crosses_y sim name = Some c"
  shows "\<exists>sim1. cross_y_check sim name ((snapshot w)\<lparr>pos_x := x_new\<rparr>) = Inr sim1 \<and>
     walk_x sim name w (x_new # rest) = walk_x sim1 name ((snapshot w)\<lparr>pos_x := x_new\<rparr>) rest \<and>
     crosses_y sim1 name =
       Some (if pos_x w * x_new < 0 \<or> (pos_x w = 0 \<and> x_new \<noteq> 0) then c + 1 else c)"
  using cross_y_check_result [OF assms, where w = "(snapshot w)\<lparr>pos_x := x_new\<rparr>"]
  by (auto simp: snapshot_def Let_def)

lemma walk_x_fixed:
  "crosses_y sim name = Some c \<Longrightarrow> pos_x w = 0 \<Longrightarrow>
   \<exists>sim'. walk_x sim name w (replicate n 0) = Inr sim' \<and> crosses_y sim' name = Some c"
proof (induction n arbitrary: sim w)
  case 0
  then show ?case by simp
next
  case (Suc n)
  from walk_x_step [OF Suc.prems(1), where w = w and x_new = 0 and rest = "replicate n 0"] Suc.prems(2)
  obtain sim1 where s1: "walk_x sim name w (0 # replicate n 0) =
        walk_x sim1 name ((snapshot w)\<lparr>pos_x := 0\<rparr>) (replicate n 0)"
      "crosses_y sim1 name = Some c"
    by auto
  from Suc.IH [OF s1(2), where w = "(snapshot w)\<lparr>pos_x := 0\<rparr>"] s1(1) show ?case
    by simp
qed

lemma walk_x_once:
  assumes "crosses_y sim name = Some c" "pos_x w = 0"
  shows "\<exists>sim'. walk_x sim name w [3] = Inr sim' \<and> crosses_y sim' name = Some (c + 1)"
  using walk_x_step [OF assms(1), where w = w and x_new = 3 and rest = "[]"] assms(2) by auto

lemma walk_x_oscillation:
  assumes "crosses_y sim name = Some c" "pos_x w = 1"
  shows "\<exists>sim'. walk_x sim name w [- 1, 1, - 1] = Inr sim' \<and> crosses_y sim' name = Some (c + 3)"
proof -
  let ?w1 = "(snapshot w)\<lparr>pos_x := - 1\<rparr>"
  let ?w2 = "(snapshot ?w1)\<lparr>pos_x := 1\<rparr>"
  from walk_x_step [OF assms(1), where w = w and x_new = "- 1" and rest = "[1, - 1]"] assms(2)
  obtain sim1 where s1: "walk_x sim name w [- 1, 1, - 1] = walk_x sim1 name ?w1 [1, - 1]"
      "crosses_y sim1 name = Some (c + 1)"
    by auto
  from walk_x_step [OF s1(2), where w = ?w1 and x_new = 1 and rest = "[- 1]"]
  obtain sim2 where s2: "walk_x sim1 name ?w1 [1, - 1] = walk_x sim2 name ?w2 [- 1]"
      "crosses_y sim2 name = Some (c + 2)"
    by auto
  from walk_x_step [OF s2(2), where w = ?w2 and x_new = "- 1" and rest = "[]"]
  obtain sim3 where s3: "walk_x sim2 name ?w2 [- 1] = Inr sim3"
      "crosses_y sim3 name = Some (c + 3)"
    by (auto simp: snapshot_def)
  from s1 s2 s3 show ?thesis by simp
qed


text \<open>
  The move from \<open>x = 1\<close> to \<open>x = 0\<close> changes the sign of the x-coordinate, and
  \<^verbatim>\<open>cross_y_check\<close> leaves the counter as it is.
\<close>

theorem crossing_counter_counterexample:
  "spec_crossing 1 0 \<and>
   crosses_y one_straight_walker ''StraightWalker1'' = Some (- 1) \<and>
   cross_y_check one_straight_walker ''StraightWalker1''
     ((new_walker StraightWalker)\<lparr>prev_x := 1, pos_x := 0\<rparr>) = Inr one_straight_walker"
  by (simp add: spec_crossing_def one_straight_walker_def add_walker_def name_first Let_def
      cross_y_check_def get_location_def get_prev_location_def)


text \<open>
  Claim C9, as the code has it. The crossing counter is \<open>-1\<close> when the walker is registered.
  \<^verbatim>\<open>cross_y_check\<close> adds one exactly when the previous and the new x-coordinate are both
  non-zero with opposite signs (their product is negative), or the previous one is zero and
  the new one is not; a move that ends on \<open>x = 0\<close> adds nothing. A walker that stays on
  \<open>x = 0\<close> never adds to the counter, one move from \<open>x = 0\<close> to \<open>x = 3\<close> adds one, and the
  moves \<open>1, -1, 1, -1\<close> add three.
\<close>

theorem crossing_counter:
  "crosses_y (add_walker sim0 w0) (new_walker_name sim0 w0) = Some (- 1) \<and>
   (crosses_y sim name = Some c \<longrightarrow>
      (\<exists>sim'. cross_y_check sim name w = Inr sim' \<and>
         crosses_y sim' name =
           Some (if prev_x w * pos_x w < 0 \<or> (prev_x w = 0 \<and> pos_x w \<noteq> 0) then c + 1 else c)) \<and>
      (pos_x w = 0 \<longrightarrow>
         (\<exists>sim'. walk_x sim name w (replicate n 0) = Inr sim' \<and> crosses_y sim' name = Some c) \<and>
         (\<exists>sim'. walk_x sim name w [3] = Inr sim' \<and> crosses_y sim' name = Some (c + 1))) \<and>
      (pos_x w = 1 \<longrightarrow>
         (\<exists>sim'. walk_x sim name w [- 1, 1, - 1] = Inr sim' \<and> crosses_y sim' name = Some (c + 3))))"
proof -
  have "crosses_y (add_walker sim0 w0) (new_walker_name sim0 w0) = Some (- 1)"
    by (simp add: add_walker_def Let_def)
  with cross_y_check_result walk_x_fixed walk_x_once walk_x_oscillation show ?thesis
    by blast
qed


theorem crossing_counter_witness:
  "\<exists>sim'. walk_x one_straight_walker ''StraightWalker1''
       ((new_walker StraightWalker)\<lparr>pos_x := 1\<rparr>) [- 1, 1, - 1] = Inr sim' \<and>
     crosses_y sim' ''StraightWalker1'' = Some 2"
proof -
  have "crosses_y one_straight_walker ''StraightWalker1'' = Some (- 1)"
    using crossing_counter [where ?sim0.0 = "new_simulation 3" and ?w0.0 = "new_walker StraightWalker"]
    by (simp add: one_straight_walker_def name_first)
  moreover have "pos_x ((new_walker StraightWalker)\<lparr>pos_x := 1\<rparr>) = 1"
    by simp
  ultimately show ?thesis
    using crossing_counter [where sim = one_straight_walker and name = "''StraightWalker1''"
        and c = "- 1" and w = "(new_walker StraightWalker)\<lparr>pos_x := 1\<rparr>"]
    by simp
qed

section \<open>The memory of a MemoryWalker\<close>

lemma update_memory_length:
  "length (memory (update_memory w)) =
     (if length (memory w) < memory_size then length (memory w) + 1 else length (memory w))"
  by (simp add: update_memory_def Let_def)

lemma update_memory_contents:
  "memory (update_memory w) =
     (if length (memory w) < memory_size then memory w @ [(pos_x w, pos_y w)]
      else tl (memory w @ [(pos_x w, pos_y w)]))"
  by (simp add: update_memory_def Let_def)

lemma update_memory_fields:
  "kind (update_memory w) = kind w" "pos_x (update_memory w) = pos_x w"
  "pos_y (update_memory w) = pos_y w" "prev_x (update_memory w) = prev_x w"
  "prev_y (update_memory w) = prev_y w" "escaped (update_memory w) = escaped w"
  "bias_probabilities (update_memory w) = bias_probabilities w"
  by (simp_all add: update_memory_def Let_def)

lemma refreshed_at_origin:
  "n \<le> memory_size \<Longrightarrow>
   memory ((update_memory ^^ n) (new_walker MemoryWalker)) = replicate n (0, 0) \<and>
   pos_x ((update_memory ^^ n) (new_walker MemoryWalker)) = 0 \<and>
   pos_y ((update_memory ^^ n) (new_walker MemoryWalker)) = 0 \<and>
   kind ((update_memory ^^ n) (new_walker MemoryWalker)) = MemoryWalker"
proof (induction n)
  case 0
  show ?case by (simp add: new_walker_def)
next
  case (Suc n)
  then show ?case
    by (simp add: update_memory_contents update_memory_fields replicate_append_same)
qed

text \<open>
  Claim C5 asks for a history of at most 1000 cells after every operation that appends to
  it. \<^verbatim>\<open>update_memory\<close> drops the oldest cell when the history is longer than 1000, but
  \<^verbatim>\<open>MemoryWalker.move\<close> appends the new cell and drops nothing: a new walker whose memory was
  refreshed 1000 times holds 1000 cells, and after its next move it holds 1001.
\<close>

theorem memory_walker_move_exceeds_capacity:
  "length (memory ((update_memory ^^ 1000) (new_walker MemoryWalker))) = memory_size \<and>
   (\<exists>w' k'. move rnd ((update_memory ^^ 1000) (new_walker MemoryWalker)) k = Inr (w', k') \<and>
      length (memory w') = memory_size + 1)"
proof -
  let ?w = "(update_memory ^^ 1000) (new_walker MemoryWalker)"
  have w: "memory ?w = replicate 1000 (0, 0)" "pos_x ?w = 0" "pos_y ?w = 0" "kind ?w = MemoryWalker"
    using refreshed_at_origin [of 1000] by (simp_all add: memory_size_def)
  have "possible_moves ?w = [(0, - 1), (0, 1), (1, 0), (- 1, 0)]"
    by (simp add: possible_moves_def w)
  then show ?thesis
    by (simp add: move_def w Let_def snapshot_def memory_size_def)
qed

section \<open>The previous position\<close>

lemma get_prev_location_handle_terrain:
  "get_prev_location (handle_terrain w terrain) = get_prev_location w"
  by (simp add: handle_terrain_def Let_def get_prev_location_update_memory
      get_prev_location_set_position)

lemma get_prev_location_gate_loop:
  "get_prev_location (gate_loop G gates w) = get_prev_location w"
  by (induction gates arbitrary: w)
    (simp_all add: Let_def get_prev_location_update_memory get_prev_location_set_position)

lemma move_kind_snapshot:
  "move_kind c rnd w k = Inr (w', k') \<Longrightarrow> c \<noteq> Walker \<Longrightarrow> get_prev_location w' = get_location w"
  by (cases c)
    (auto simp: Let_def step_by_def snapshot_def get_prev_location_def get_location_def
      bind_result_def split: sum.splits if_splits)

text \<open>
  A walker that stepped from the origin to \<open>(1, 0)\<close> into the entrance of a gate is moved to
  the exit \<open>(5, 5)\<close>; its stored previous position is still the origin, not the location
  \<open>(1, 0)\<close> it held before the teleport.
\<close>

definition portal :: simulation where
  "portal =
     (new_simulation 1)\<lparr>enchanted_gates :=
        [\<lparr>entrance_location = (1 / 2, - 1 / 2), exit_location = (5, 5),
          gate_width = 1, gate_height = 1\<rparr>]\<rparr>"

theorem previous_position_counterexample:
  "get_location (step_by (new_walker StraightWalker) (1, 0)) = (1, 0) \<and>
   get_location (gate_check box_geometry portal (step_by (new_walker StraightWalker) (1, 0))) = (5, 5) \<and>
   get_prev_location (gate_check box_geometry portal (step_by (new_walker StraightWalker) (1, 0))) = (0, 0)"
  by (simp add: gate_check_def portal_def new_simulation_def step_by_def snapshot_def
      new_walker_def get_location_def get_prev_location_def box_geometry_def box_of_def
      gate_get_boundary_def axis_window_def set_position_def Let_def)

text \<open>
  Claim C6, as the code has it. A policy move of a walker stores, as previous position, the
  location the walker held immediately before that move. A terrain effect and a gate
  teleport leave the stored previous position as it is, so after them it is still the
  location held before the step's policy move, and the segment tested against obstacles
  and gates runs from there to the current location.
\<close>

theorem previous_position_of_policy_move:
  "(move rnd w k = Inr (w', k') \<and> kind w \<noteq> Walker \<longrightarrow> get_prev_location w' = get_location w) \<and>
   get_prev_location (handle_terrain w terrain) = get_prev_location w \<and>
   get_prev_location (gate_check G sim w) = get_prev_location w"
  using move_kind_snapshot [of "kind w" rnd w k w' k']
  by (simp add: move_def get_prev_location_handle_terrain gate_check_def
      get_prev_location_gate_loop)

text \<open>A StraightWalker at \<open>(2, 3)\<close> that steps down holds \<open>(2, 3)\<close> as previous position.\<close>

theorem previous_position_of_policy_move_witness:
  "\<exists>w' k'. move (\<lambda>n. 0) ((new_walker StraightWalker)\<lparr>pos_x := 2, pos_y := 3\<rparr>) 0 = Inr (w', k') \<and>
     get_location w' = (2, 2) \<and> get_prev_location w' = (2, 3)"
proof -
  let ?w = "(new_walker StraightWalker)\<lparr>pos_x := 2, pos_y := 3\<rparr>"
  obtain w' k' where m: "move (\<lambda>n. 0) ?w 0 = Inr (w', k')" and l: "get_location w' = (2, 2)"
    by (simp add: move_def new_walker_def choice_def randbelow_def cardinal_directions_def
        step_by_def snapshot_def get_location_def)
  have "kind ?w \<noteq> Walker"
    by (simp add: new_walker_def)
  with m have "get_prev_location w' = get_location ?w"
    using previous_position_of_policy_move [of "\<lambda>n. 0" ?w 0 w' k'] by simp
  with m l show ?thesis
    by (simp add: get_location_def)
qed

section \<open>The interaction branch of the movement resolver\<close>

lemma arctan_half_bounds: "0 < arctan (1 / 2) \<and> arctan (1 / 2) < pi / 4"
proof -
  have "arctan (1 / 2) < arctan 1"
    by (simp add: arctan_less_iff)
  then show ?thesis
    by (simp add: arctan_one)
qed

lemma py_round_small: "0 \<le> v \<Longrightarrow> v < 1 / 2 \<Longrightarrow> py_round v = 0"
proof -
  assume v: "0 \<le> v" "v < 1 / 2"
  then have "\<lfloor>v\<rfloor> = 0"
    by (simp add: floor_eq_iff)
  with v show ?thesis
    by (simp add: py_round_def Let_def)
qed

lemma round_direction_arctan_half: "round_direction (arctan (1 / 2)) = 0"
proof -
  have "0 \<le> arctan (1 / 2) / (pi / 2)" "arctan (1 / 2) / (pi / 2) < 1 / 2"
    using arctan_half_bounds by (simp_all add: field_simps)
  then have "py_round (arctan (1 / 2) / (pi / 2)) = 0"
    by (rule py_round_small)
  then show ?thesis
    by (simp add: round_direction_def)
qed

text \<open>
  A RandomDistanceWalker at the origin, a UnitWalker at \<open>(2, 1)\<close>, the interaction mode
  \<^verbatim>\<open>attract\<close>; the draws are \<open>1/10\<close> for the probability and \<open>1/2\<close> for the distance, which
  is then \<open>1\<close>.
\<close>

definition attracted_pair :: simulation where
  "attracted_pair =
     (new_simulation 1)
       \<lparr>walkers := [(''RandomDistanceWalker1'', new_walker RandomDistanceWalker),
                    (''UnitWalker1'', (new_walker UnitWalker)\<lparr>pos_x := 2, pos_y := 1\<rparr>)],
        walkers_interaction := Some ''attract''\<rparr>"

definition biased_draws :: rng where
  "biased_draws n = (if n = 0 then 1 / 10 else 1 / 2)"

text \<open>
  Claim C1 says that a RandomDistanceWalker uses the bearing to the nearest walker as it
  is. The guard of the rounding, \<^verbatim>\<open>not isinstance(walker, UnitWalker) or
  isinstance(walker, RandomDistanceWalker)\<close>, holds for a RandomDistanceWalker, so its
  bearing is rounded to a multiple of 90 degrees: the bearing to \<open>(2, 1)\<close> lies strictly
  between 0 and 45 degrees, and the walker ends at \<open>(1, 0)\<close>, on the x-axis.
\<close>

theorem random_distance_walker_bearing_rounded:
  "rounds_direction (new_walker RandomDistanceWalker) \<and>
   0 < atan2 1 2 \<and> atan2 1 2 < pi / 4 \<and>
   choose_move biased_draws attracted_pair ''RandomDistanceWalker1''
       (new_walker RandomDistanceWalker) 0
     = Inr ((new_walker RandomDistanceWalker)\<lparr>pos_x := 1, pos_y := 0\<rparr>, 2)"
proof -
  have a: "atan2 1 2 = arctan (1 / 2)"
    by (simp add: atan2_def)
  have loc: "get_location (new_walker RandomDistanceWalker) = (0, 0)"
      "get_location ((new_walker UnitWalker)\<lparr>pos_x := 2, pos_y := 1\<rparr>) = (2, 1)"
    by (simp_all add: get_location_def new_walker_def)
  have inter: "walkers_interaction attracted_pair = Some ''attract''"
    by (simp add: attracted_pair_def)
  have near: "locate_nearest_walker attracted_pair ''RandomDistanceWalker1''
      (new_walker RandomDistanceWalker) = Inr ((new_walker UnitWalker)\<lparr>pos_x := 2, pos_y := 1\<rparr>)"
    by (simp add: locate_nearest_walker_def attracted_pair_def new_simulation_def Let_def)
  have "choose_move biased_draws attracted_pair ''RandomDistanceWalker1''
       (new_walker RandomDistanceWalker) 0
     = Inr ((new_walker RandomDistanceWalker)\<lparr>pos_x := 1, pos_y := 0\<rparr>, 2)"
    using arctan_half_bounds
    by (simp add: choose_move_def inter near Let_def biased_draws_def uniform_def
        rounds_direction_def loc kind_new_walker a round_direction_arctan_half)
      (simp add: set_position_def new_walker_def)
  with a arctan_half_bounds show ?thesis
    by (simp add: rounds_direction_def kind_new_walker)
qed

text \<open>The walker of this run ends on the x-axis.\<close>

theorem random_distance_walker_bearing_rounded_witness:
  "\<exists>w k. choose_move biased_draws attracted_pair ''RandomDistanceWalker1''
       (new_walker RandomDistanceWalker) 0 = Inr (w, k) \<and> get_location w = (1, 0)"
  using random_distance_walker_bearing_rounded
  by (simp add: get_location_def)

section \<open>Gates\<close>

text \<open>
  Two gates with disjoint entrances; the exit of the first lies beyond the entrance of the
  second, seen from the origin.
\<close>

definition two_gates :: simulation where
  "two_gates =
     (new_simulation 1)\<lparr>enchanted_gates :=
        [\<lparr>entrance_location = (1 / 2, - 1 / 2), exit_location = (5, 0),
          gate_width = 1, gate_height = 1\<rparr>,
         \<lparr>entrance_location = (5 / 2, - 1 / 2), exit_location = (- 3, - 3),
          gate_width = 1, gate_height = 1\<rparr>]\<rparr>"

text \<open>
  Claim C4 says that the walker ends at the exit of the first gate, in list order, whose
  entrance its segment meets. \<^verbatim>\<open>gate_check\<close> goes on after a teleport and tests the next
  gates against the segment from the stored previous position to the exit just reached: the
  segment from the origin to \<open>(1, 0)\<close> meets the first entrance only, and the walker ends
  at the exit \<open>(-3, -3)\<close> of the second gate, not at the exit \<open>(5, 0)\<close> of the first.
\<close>

theorem gate_check_second_gate_wins:
  "line_intersects box_geometry (0, 0) (1, 0) (gate_get_boundary (enchanted_gates two_gates ! 0)) \<and>
   \<not> line_intersects box_geometry (0, 0) (1, 0) (gate_get_boundary (enchanted_gates two_gates ! 1)) \<and>
   get_prev_location (step_by (new_walker StraightWalker) (1, 0)) = (0, 0) \<and>
   get_location (step_by (new_walker StraightWalker) (1, 0)) = (1, 0) \<and>
   get_location (gate_check box_geometry two_gates (step_by (new_walker StraightWalker) (1, 0)))
     = (- 3, - 3)"
  by (simp add: gate_check_def two_gates_def new_simulation_def step_by_def snapshot_def
      new_walker_def get_location_def get_prev_location_def box_geometry_def box_of_def
      gate_get_boundary_def axis_window_def set_position_def Let_def)

section \<open>Runs\<close>

subsection \<open>What a turn leaves unchanged\<close>

definition same_walker :: "walker \<Rightarrow> walker \<Rightarrow> bool" where
  "same_walker w w' \<longleftrightarrow>
     kind w' = kind w \<and> bias_probabilities w' = bias_probabilities w \<and> escaped w' = escaped w"

lemma same_walker_refl: "same_walker w w"
  by (simp add: same_walker_def)

lemma same_walker_trans: "same_walker w w1 \<Longrightarrow> same_walker w1 w2 \<Longrightarrow> same_walker w w2"
  by (simp add: same_walker_def)

lemma same_walker_update_memory: "same_walker w (update_memory w)"
  by (simp add: same_walker_def update_memory_fields)

lemma same_walker_set_position: "same_walker w (set_position w p)"
  by (simp add: same_walker_def set_position_def)

lemma same_walker_move_back: "same_walker w (move_back w)"
  by (simp add: same_walker_def move_back_def)

lemma same_walker_move_kind: "move_kind c rnd w k = Inr (w', k') \<Longrightarrow> same_walker w w'"
  by (cases c)
    (auto simp: same_walker_def Let_def step_by_def snapshot_def bind_result_def
      split: sum.splits if_splits)

lemma same_walker_move: "move rnd w k = Inr (w', k') \<Longrightarrow> same_walker w w'"
  by (simp add: move_def same_walker_move_kind)

lemma same_walker_choose_move: "choose_move rnd sim name w k = Inr (w', k') \<Longrightarrow> same_walker w w'"
proof -
  assume c: "choose_move rnd sim name w k = Inr (w', k')"
  then consider k0 where "move rnd w k0 = Inr (w', k')" | "w' = w"
    | p where "w' = set_position w p" | p where "w' = update_memory (set_position w p)"
    by (auto simp: choose_move_def Let_def split: option.splits sum.splits if_splits)
  then show ?thesis
  proof cases
    case 1
    then show ?thesis by (rule same_walker_move)
  next
    case 2
    then show ?thesis by (simp add: same_walker_refl)
  next
    case 3
    then show ?thesis by (simp add: same_walker_set_position)
  next
    case 4
    then show ?thesis
      using same_walker_trans [OF same_walker_set_position same_walker_update_memory] by simp
  qed
qed

lemma same_walker_handle_terrain: "same_walker w (handle_terrain w terrain)"
  by (simp add: handle_terrain_def Let_def same_walker_def update_memory_fields set_position_def)

lemma same_walker_gate_loop: "same_walker w (gate_loop G gates w)"
proof (induction gates arbitrary: w)
  case Nil
  show ?case by (simp add: same_walker_refl)
next
  case (Cons gate gates)
  have "same_walker w (set_position w (exit_location gate))"
    "same_walker w (update_memory (set_position w (exit_location gate)))"
    by (simp_all add: same_walker_def update_memory_fields set_position_def)
  with Cons show ?case
    by (auto simp: Let_def intro: same_walker_trans)
qed

lemma same_walker_first_move:
  "first_move G rnd sim name w k = Inr (w', k') \<Longrightarrow> same_walker w w'"
  by (auto simp: first_move_def split: sum.splits prod.splits
      intro: same_walker_trans [OF same_walker_choose_move same_walker_handle_terrain])

lemma same_walker_retry_move:
  "retry_move G rnd sim name w k = Inr (w', k') \<Longrightarrow> same_walker w w'"
proof -
  assume r: "retry_move G rnd sim name w k = Inr (w', k')"
  then obtain w1 where c: "choose_move rnd sim name (move_back w) k = Inr (w1, k')"
      and w': "w' = w1 \<or> w' = handle_terrain w1 (terrain_check G sim w1)"
    by (auto simp: retry_move_def Let_def split: sum.splits prod.splits if_splits)
  have "same_walker w w1"
    using same_walker_trans [OF same_walker_move_back same_walker_choose_move [OF c]] .
  with w' show ?thesis
    using same_walker_trans [OF _ same_walker_handle_terrain] by blast
qed

lemma same_walker_collision_loop:
  "collision_loop G rnd sim name a w k = Inr (b, w', k') \<Longrightarrow> same_walker w w'"
proof (induction G rnd sim name a w k rule: collision_loop.induct)
  case (1 G rnd sim name a w k)
  show ?case
  proof (cases "check_collision G sim w \<and> a < max_collision_attempts")
    case False
    with "1.prems" have "w' = w"
      by (subst (asm) collision_loop.simps) (auto split: if_splits)
    then show ?thesis by (simp add: same_walker_refl)
  next
    case True
    with "1.prems" obtain w1 k1 where r: "retry_move G rnd sim name w k = Inr (w1, k1)"
        and l: "collision_loop G rnd sim name (a + 1) w1 k1 = Inr (b, w', k')"
      by (subst (asm) collision_loop.simps) (auto split: sum.splits)
    from True r l have "same_walker w1 w'"
      by (intro "1.IH") auto
    with same_walker_retry_move [OF r] show ?thesis
      by (rule same_walker_trans)
  qed
qed


subsection \<open>Configurations whose run raises no exception\<close>

















subsection \<open>The bookkeeping of one turn\<close>

definition beyond_radius :: "walker \<Rightarrow> bool" where
  "beyond_radius w \<longleftrightarrow> 10 < sqrt ((pos_x w)\<^sup>2 + (pos_y w)\<^sup>2)"

definition crossing :: "walker \<Rightarrow> bool" where
  "crossing w \<longleftrightarrow> pos_x w * prev_x w < 0 \<or> (prev_x w = 0 \<and> pos_x w \<noteq> 0)"

lemma escape_check_result:
  "escape_check w =
     (beyond_radius w \<or> escaped w, if beyond_radius w \<or> escaped w then w\<lparr>escaped := True\<rparr> else w)"
  by (auto simp: escape_check_def beyond_radius_def get_location_def)

definition recorded_step :: "walker \<Rightarrow> int option \<Rightarrow> int \<Rightarrow> step_record" where
  "recorded_step w t c =
     \<lparr>locations = get_location w, escape_time = t, y_crosses = max 0 c,
      distance_from_origin = sqrt ((fst (get_location w))\<^sup>2 + (snd (get_location w))\<^sup>2),
      distance_from_x = \<bar>snd (get_location w)\<bar>, distance_from_y = \<bar>fst (get_location w)\<bar>\<rparr>"

definition mark_escaped :: "walker \<Rightarrow> walker" where
  "mark_escaped w = (if beyond_radius w \<or> escaped w then w\<lparr>escaped := True\<rparr> else w)"

lemma escape_check_mark: "escape_check w = (beyond_radius w \<or> escaped w, mark_escaped w)"
  by (simp add: escape_check_result mark_escaped_def)

lemma mark_escaped_fields:
  "escaped (mark_escaped w) = (beyond_radius w \<or> escaped w)"
  "beyond_radius (mark_escaped w) = beyond_radius w"
  "get_location (mark_escaped w) = get_location w"
  "get_prev_location (mark_escaped w) = get_prev_location w"
  "kind (mark_escaped w) = kind w"
  "bias_probabilities (mark_escaped w) = bias_probabilities w"
  "mark_escaped (mark_escaped w) = mark_escaped w"
  by (auto simp: mark_escaped_def beyond_radius_def get_location_def get_prev_location_def)

lemma crossing_mark_escaped: "crossing (mark_escaped w) = crossing w"
  by (simp add: mark_escaped_def crossing_def)

lemma recorded_step_mark_escaped: "recorded_step (mark_escaped w) t c = recorded_step w t c"
  by (simp add: recorded_step_def mark_escaped_fields)

lemma sim_escape_check_result:
  "sim_escape_check sim name w i =
     (if beyond_radius w \<or> escaped w then sim
      else sim\<lparr>escape_times := (escape_times sim)(name \<mapsto> Some i)\<rparr>, mark_escaped w)"
  by (simp add: sim_escape_check_def escape_check_mark)

lemma cross_y_check_known:
  "crosses_y sim name = Some c \<Longrightarrow>
   cross_y_check sim name w =
     Inr (if crossing w then sim\<lparr>crosses_y := (crosses_y sim)(name \<mapsto> c + 1)\<rparr> else sim)"
  by (simp add: cross_y_check_def crossing_def get_location_def get_prev_location_def)

lemma simulation_results_update_result:
  assumes "escape_times sim name = Some t" "crosses_y sim name = Some c"
    "map_of (total_dict sim) name = Some steps"
  shows "simulation_results_update sim name w i =
     Inr (sim\<lparr>total_dict := dict_set (total_dict sim) name
            (dict_set steps i
               (recorded_step w (if beyond_radius w \<or> escaped w then t else None) c))\<rparr>,
          mark_escaped w)"
  using assms
  by (simp add: simulation_results_update_def escape_check_mark recorded_step_def
      mark_escaped_fields)

definition after_bookkeeping :: "simulation \<Rightarrow> string \<Rightarrow> walker \<Rightarrow> int \<Rightarrow> simulation" where
  "after_bookkeeping sim name w i =
     (let out = (beyond_radius w \<or> escaped w);
          t0 = the (escape_times sim name);
          c0 = the (crosses_y sim name);
          c = (if crossing w then c0 + 1 else c0)
      in sim\<lparr>escape_times :=
               (if out then escape_times sim else (escape_times sim)(name \<mapsto> Some i)),
             crosses_y := (if crossing w then (crosses_y sim)(name \<mapsto> c) else crosses_y sim),
             total_dict := dict_set (total_dict sim) name
               (dict_set (the (map_of (total_dict sim) name)) i
                  (recorded_step w (if out then t0 else None) c))\<rparr>)"

lemma bookkeeping_result:
  assumes "name \<in> dom (escape_times sim)" "name \<in> dom (crosses_y sim)"
    "name \<in> dom (map_of (total_dict sim))"
  shows "bookkeeping sim name w i = Inr (after_bookkeeping sim name w i, mark_escaped w)"
proof -
  from assms obtain t0 c steps where known: "escape_times sim name = Some t0"
      "crosses_y sim name = Some c" "map_of (total_dict sim) name = Some steps"
    by blast
  show ?thesis
  proof (cases "beyond_radius w \<or> escaped w")
    case True
    then show ?thesis
      using known
      by (cases "crossing w")
        (simp_all add: bookkeeping_def sim_escape_check_result cross_y_check_known
          simulation_results_update_result after_bookkeeping_def mark_escaped_fields
          crossing_mark_escaped recorded_step_mark_escaped Let_def)
  next
    case False
    then show ?thesis
      using known
      by (cases "crossing w")
        (simp_all add: bookkeeping_def sim_escape_check_result cross_y_check_known
          simulation_results_update_result after_bookkeeping_def mark_escaped_fields
          crossing_mark_escaped recorded_step_mark_escaped Let_def)
  qed
qed


subsection \<open>One turn\<close>


lemma keys_store:
  "name \<in> fst ` set (walkers sim) \<Longrightarrow> map fst (walkers (store sim name w)) = map fst (walkers sim)"
  by (simp add: store_def map_fst_dict_set)

lemma after_bookkeeping_fields:
  "walkers (after_bookkeeping sim name w i) = walkers sim"
  "walkers_interaction (after_bookkeeping sim name w i) = walkers_interaction sim"
  "dom (escape_times sim) \<subseteq> dom (escape_times (after_bookkeeping sim name w i))"
  "dom (crosses_y sim) \<subseteq> dom (crosses_y (after_bookkeeping sim name w i))"
  "dom (map_of (total_dict sim)) \<subseteq> dom (map_of (total_dict (after_bookkeeping sim name w i)))"
  by (auto simp: after_bookkeeping_def Let_def map_of_dict_set)

lemma store_fields:
  "walkers_interaction (store sim name w) = walkers_interaction sim"
  "escape_times (store sim name w) = escape_times sim"
  "crosses_y (store sim name w) = crosses_y sim"
  "total_dict (store sim name w) = total_dict sim"
  by (simp_all add: store_def)




definition after_loop :: "geometry \<Rightarrow> simulation \<Rightarrow> walker \<Rightarrow> walker" where
  "after_loop G sim w = gate_check G sim (if kind w = MemoryWalker then update_memory w else w)"

lemma same_walker_after_loop: "same_walker w (after_loop G sim w)"
  using same_walker_trans [OF same_walker_update_memory same_walker_gate_loop]
  by (simp add: after_loop_def gate_check_def same_walker_gate_loop)

text \<open>The two ways in which a turn returns.\<close>

lemma walker_turn_False:
  "walker_turn G rnd i name s = Inr (False, s') \<longleftrightarrow>
     (\<exists>w w1 k1 w2 k2. map_of (walkers (fst s)) name = Some w \<and>
        first_move G rnd (fst s) name w (snd s) = Inr (w1, k1) \<and>
        collision_loop G rnd (fst s) name 0 w1 k1 = Inr (False, w2, k2) \<and>
        s' = (store (fst s) name w2, k2))"
  by (auto simp: walker_turn_def Let_def split: option.splits sum.splits prod.splits if_splits)

lemma walker_turn_True:
  "walker_turn G rnd i name s = Inr (True, s') \<longleftrightarrow>
     (\<exists>w w1 k1 w2 k2 sim1 w5. map_of (walkers (fst s)) name = Some w \<and>
        first_move G rnd (fst s) name w (snd s) = Inr (w1, k1) \<and>
        collision_loop G rnd (fst s) name 0 w1 k1 = Inr (True, w2, k2) \<and>
        bookkeeping (fst s) name (after_loop G (fst s) w2) i = Inr (sim1, w5) \<and>
        s' = (store sim1 name w5, k2))"
  by (auto simp: walker_turn_def after_loop_def Let_def
      split: option.splits sum.splits prod.splits if_splits)







subsection \<open>The two loops of a run\<close>







subsection \<open>Exhausting the retries\<close>








subsection \<open>A well-formed run returns\<close>






lemma new_simulation_fields:
  "num_moves (new_simulation n) = n" "walkers (new_simulation n) = []"
  "obstacles (new_simulation n) = []" "enchanted_gates (new_simulation n) = []"
  "escape_times (new_simulation n) = Map.empty" "crosses_y (new_simulation n) = Map.empty"
  "total_dict (new_simulation n) = []" "sands (new_simulation n) = []"
  "waters (new_simulation n) = []" "grasses (new_simulation n) = []"
  "walkers_interaction (new_simulation n) = None"
  by (simp_all add: new_simulation_def)







section \<open>The escape-time field of the step records\<close>

subsection \<open>The escape-time field along a table of step records\<close>

text \<open>
  Going through the records of a walker in step order: the pair of the escape time so far
  and of the escaped flag. A record whose distance from the origin exceeds 10 sets the
  flag for good; a record before that makes its step index the escape time.
\<close>

definition advance :: "int option \<times> bool \<Rightarrow> int \<times> step_record \<Rightarrow> int option \<times> bool" where
  "advance st x =
     (if snd st \<or> 10 < distance_from_origin (snd x) then (fst st, True) else (Some (fst x), False))"

fun escape_fields_from :: "int option \<times> bool \<Rightarrow> run_table \<Rightarrow> bool" where
  "escape_fields_from st [] = True"
| "escape_fields_from st (x # xs) =
     (escape_time (snd x) = (if snd (advance st x) then fst (advance st x) else None) \<and>
      escape_fields_from (advance st x) xs)"

lemma escape_fields_from_append:
  "escape_fields_from st (xs @ ys) \<longleftrightarrow>
     escape_fields_from st xs \<and> escape_fields_from (foldl advance st xs) ys"
  by (induction xs arbitrary: st) auto

lemma fields_before_escape:
  assumes "\<not> snd st" "\<forall>x\<in>set xs. distance_from_origin (snd x) \<le> 10" "escape_fields_from st xs"
  shows "(\<forall>x\<in>set xs. escape_time (snd x) = None) \<and>
     foldl advance st xs = (if xs = [] then st else (Some (fst (last xs)), False))"
  using assms
proof (induction xs arbitrary: st)
  case Nil
  then show ?case by simp
next
  case (Cons x xs)
  from Cons.prems have a: "advance st x = (Some (fst x), False)"
    by (simp add: advance_def)
  with Cons.prems have "(\<forall>y\<in>set xs. escape_time (snd y) = None) \<and>
     foldl advance (advance st x) xs =
       (if xs = [] then advance st x else (Some (fst (last xs)), False))"
    by (intro Cons.IH) simp_all
  with Cons.prems a show ?case
    by simp
qed

lemma fields_after_escape:
  assumes "snd st" "escape_fields_from st xs"
  shows "\<forall>x\<in>set xs. escape_time (snd x) = fst st"
  using assms
proof (induction xs arbitrary: st)
  case Nil
  then show ?case by simp
next
  case (Cons x xs)
  from Cons.prems have a: "advance st x = (fst st, True)"
    by (simp add: advance_def)
  with Cons.prems have "\<forall>y\<in>set xs. escape_time (snd y) = fst (advance st x)"
    by (intro Cons.IH) simp_all
  with Cons.prems a show ?case
    by simp
qed

lemma fields_around_escape:
  assumes fields: "escape_fields_from (None, False) (A @ x # B)"
    and before: "\<forall>a\<in>set A. distance_from_origin (snd a) \<le> 10"
    and beyond: "10 < distance_from_origin (snd x)"
  shows "(\<forall>a\<in>set A. escape_time (snd a) = None) \<and>
     (\<forall>y\<in>set (x # B). escape_time (snd y) = (if A = [] then None else Some (fst (last A))))"
proof -
  let ?st = "foldl advance (None, False) A"
  let ?t = "if A = [] then None else Some (fst (last A))"
  from fields have fa: "escape_fields_from (None, False) A" and fx: "escape_fields_from ?st (x # B)"
    by (simp_all add: escape_fields_from_append)
  from fields_before_escape [OF _ before fa] have
    none: "\<forall>a\<in>set A. escape_time (snd a) = None" and st: "?st = (?t, False)"
    by auto
  from beyond st have a: "advance ?st x = (?t, True)"
    by (simp add: advance_def)
  with fx have "escape_time (snd x) = ?t" and "escape_fields_from (?t, True) B"
    by simp_all
  moreover from this(2) have "\<forall>y\<in>set B. escape_time (snd y) = ?t"
    using fields_after_escape [of "(?t, True)" B] by simp
  ultimately show ?thesis
    using none by simp
qed

lemma key_at_split:
  assumes "map fst (A @ x # B) = [1..n]"
  shows "fst x = 1 + int (length A)" and "A \<noteq> [] \<Longrightarrow> fst (last A) = int (length A)"
proof -
  have len: "length [1..n] = length A + 1 + length B"
    using arg_cong [OF assms, of length] by simp
  then have n: "1 + int (length A) + int (length B) \<le> n"
    by (cases "1 \<le> n") (simp_all add: nat_le_iff)
  have "[1..n] ! length A = fst x"
    using arg_cong [OF assms, of "\<lambda>l. l ! length A"] by (simp add: nth_append)
  with n show "fst x = 1 + int (length A)"
    by (simp add: nth_upto)
  assume ne: "A \<noteq> []"
  then have "[1..n] ! (length A - 1) = fst (last A)"
    using arg_cong [OF assms, of "\<lambda>l. l ! (length A - 1)"]
    by (simp add: nth_append last_conv_nth)
  with n ne show "fst (last A) = int (length A)"
    by (simp add: nth_upto Suc_leI)
qed


subsection \<open>The tables during a run\<close>

text \<open>
  A walker is tracked up to step \<open>n\<close>: its table holds the records of the steps 1 to \<open>n\<close> in
  order, the escape-time fields are as described, and the walker's escape time and flag
  are where the table leaves them.
\<close>

definition tracked :: "simulation \<Rightarrow> string \<Rightarrow> int \<Rightarrow> bool" where
  "tracked sim name n \<longleftrightarrow>
     (\<exists>w t steps. map_of (walkers sim) name = Some w \<and> escape_times sim name = Some t \<and>
        name \<in> dom (crosses_y sim) \<and> map_of (total_dict sim) name = Some steps \<and>
        map fst steps = [1..n] \<and> escape_fields_from (None, False) steps \<and>
        foldl advance (None, False) steps = (t, escaped w))"

lemma map_of_store: "map_of (walkers (store sim name w)) = (map_of (walkers sim))(name \<mapsto> w)"
  by (simp add: store_def map_of_dict_set)

lemma tracked_store:
  assumes "tracked sim name n" "map_of (walkers sim) name = Some w" "escaped w' = escaped w"
  shows "tracked (store sim name w') name n"
  using assms by (auto simp: tracked_def map_of_store store_fields)

lemma tracked_store_other: "m \<noteq> name \<Longrightarrow> tracked (store sim name w') m n = tracked sim m n"
  by (simp add: tracked_def map_of_store store_fields)

lemma tracked_after_bookkeeping_other:
  "m \<noteq> name \<Longrightarrow> tracked sim m n \<Longrightarrow> tracked (after_bookkeeping sim name w i) m n"
  by (auto simp: tracked_def after_bookkeeping_def Let_def map_of_dict_set)

lemma dict_set_append: "k \<notin> set (map fst kvs) \<Longrightarrow> dict_set kvs k v = kvs @ [(k, v)]"
  by (simp add: dict_set_fresh)

lemma distance_recorded_step:
  "10 < distance_from_origin (recorded_step w t c) \<longleftrightarrow> beyond_radius w"
  by (simp add: recorded_step_def beyond_radius_def get_location_def)

lemma tracked_next:
  assumes tr: "tracked sim name (i - 1)" and old: "map_of (walkers sim) name = Some w"
    and same: "escaped w4 = escaped w" and i: "1 \<le> i"
  shows "tracked (store (after_bookkeeping sim name w4 i) name (mark_escaped w4)) name i"
proof -
  from tr old obtain t steps where t: "escape_times sim name = Some t"
      and c: "name \<in> dom (crosses_y sim)" and table: "map_of (total_dict sim) name = Some steps"
      and keys: "map fst steps = [1..i - 1]" and fields: "escape_fields_from (None, False) steps"
      and state: "foldl advance (None, False) steps = (t, escaped w)"
    by (auto simp: tracked_def)
  let ?out = "beyond_radius w4 \<or> escaped w4"
  let ?c = "if crossing w4 then the (crosses_y sim name) + 1 else the (crosses_y sim name)"
  let ?r = "recorded_step w4 (if ?out then t else None) ?c"
  let ?sim' = "store (after_bookkeeping sim name w4 i) name (mark_escaped w4)"
  have "i \<notin> set (map fst steps)"
    by (simp add: keys)
  then have new: "dict_set steps i ?r = steps @ [(i, ?r)]"
    by (rule dict_set_append)
  have table': "map_of (total_dict ?sim') name = Some (steps @ [(i, ?r)])"
    using new by (simp add: store_fields after_bookkeeping_def Let_def map_of_dict_set table t)
  have adv: "advance (t, escaped w) (i, ?r) = (if ?out then (t, True) else (Some i, False))"
    by (auto simp: advance_def distance_recorded_step same)
  have keys': "map fst (steps @ [(i, ?r)]) = [1..i]"
    using i upto_rec2 [of 1 i] by (simp add: keys)
  have fields': "escape_fields_from (None, False) (steps @ [(i, ?r)])"
    using fields state adv by (simp add: escape_fields_from_append recorded_step_def)
  have state': "foldl advance (None, False) (steps @ [(i, ?r)]) =
      (if ?out then t else Some i, escaped (mark_escaped w4))"
    using state adv by (simp add: mark_escaped_fields)
  have t': "escape_times ?sim' name = Some (if ?out then t else Some i)"
    by (simp add: store_fields after_bookkeeping_def Let_def t)
  have c': "name \<in> dom (crosses_y ?sim')"
    using c by (auto simp: store_fields after_bookkeeping_def Let_def)
  have "map_of (walkers ?sim') name = Some (mark_escaped w4)"
    by (simp add: map_of_store)
  with t' c' table' keys' fields' state' show ?thesis
    unfolding tracked_def by blast
qed

lemma walker_turn_tracked:
  assumes turn: "walker_turn G rnd i name s = Inr (b, s')"
    and tr: "tracked (fst s) name (i - 1)" and i: "1 \<le> i"
  shows "tracked (fst s') name (if b then i else i - 1)"
    and "\<And>m n. m \<noteq> name \<Longrightarrow> tracked (fst s) m n \<Longrightarrow> tracked (fst s') m n"
    and "map fst (walkers (fst s')) = map fst (walkers (fst s))"
proof -
  from tr have doms: "name \<in> dom (escape_times (fst s))" "name \<in> dom (crosses_y (fst s))"
      "name \<in> dom (map_of (total_dict (fst s)))"
    by (auto simp: tracked_def)
  have all: "tracked (fst s') name (if b then i else i - 1) \<and>
      (\<forall>m n. m \<noteq> name \<longrightarrow> tracked (fst s) m n \<longrightarrow> tracked (fst s') m n) \<and>
      map fst (walkers (fst s')) = map fst (walkers (fst s))"
  proof (cases b)
    case False
    with turn obtain w w1 k1 w2 k2 where old: "map_of (walkers (fst s)) name = Some w"
        and f: "first_move G rnd (fst s) name w (snd s) = Inr (w1, k1)"
        and l: "collision_loop G rnd (fst s) name 0 w1 k1 = Inr (False, w2, k2)"
        and s': "s' = (store (fst s) name w2, k2)"
      using walker_turn_False [of G rnd i name s s'] by auto
    have "same_walker w w2"
      using same_walker_trans [OF same_walker_first_move [OF f] same_walker_collision_loop [OF l]] .
    then have "escaped w2 = escaped w"
      by (simp add: same_walker_def)
    from tracked_store [OF tr old this] have "tracked (fst s') name (i - 1)"
      by (simp add: s')
    moreover from old have "name \<in> fst ` set (walkers (fst s))"
      by (metis map_of_SomeD fst_conv image_eqI)
    then have "map fst (walkers (fst s')) = map fst (walkers (fst s))"
      by (simp add: s' keys_store)
    ultimately show ?thesis
      using False by (simp add: s' tracked_store_other)
  next
    case True
    with turn obtain w w1 k1 w2 k2 sim1 w5 where old: "map_of (walkers (fst s)) name = Some w"
        and f: "first_move G rnd (fst s) name w (snd s) = Inr (w1, k1)"
        and l: "collision_loop G rnd (fst s) name 0 w1 k1 = Inr (True, w2, k2)"
        and bk: "bookkeeping (fst s) name (after_loop G (fst s) w2) i = Inr (sim1, w5)"
        and s': "s' = (store sim1 name w5, k2)"
      using walker_turn_True [of G rnd i name s s'] by auto
    let ?w4 = "after_loop G (fst s) w2"
    from bk bookkeeping_result [OF doms, of ?w4 i]
    have sim1: "sim1 = after_bookkeeping (fst s) name ?w4 i" and w5: "w5 = mark_escaped ?w4"
      by simp_all
    have "same_walker w w2"
      using same_walker_trans [OF same_walker_first_move [OF f] same_walker_collision_loop [OF l]] .
    then have "same_walker w ?w4"
      using same_walker_after_loop by (rule same_walker_trans)
    then have "escaped ?w4 = escaped w"
      by (simp add: same_walker_def)
    from tracked_next [OF tr old this i] have "tracked (fst s') name i"
      by (simp add: s' sim1 w5)
    moreover from old have "name \<in> fst ` set (walkers (fst s))"
      by (metis map_of_SomeD fst_conv image_eqI)
    then have "map fst (walkers (fst s')) = map fst (walkers (fst s))"
      using keys_store [of name sim1 w5] by (simp add: s' sim1 after_bookkeeping_fields)
    ultimately show ?thesis
      using True by (simp add: s' sim1 tracked_store_other tracked_after_bookkeeping_other)
  qed
  from all show "tracked (fst s') name (if b then i else i - 1)" by blast
  from all show "\<And>m n. m \<noteq> name \<Longrightarrow> tracked (fst s) m n \<Longrightarrow> tracked (fst s') m n" by blast
  from all show "map fst (walkers (fst s')) = map fst (walkers (fst s))" by blast
qed


lemma run_walkers_tracked:
  assumes "distinct names" "\<forall>m\<in>set names. tracked (fst s) m (i - 1)" "1 \<le> i"
    "run_walkers G rnd i names s = Inr (b, s')"
  shows "(\<forall>m\<in>set names. tracked (fst s') m (i - 1) \<or> tracked (fst s') m i) \<and>
     (b \<longrightarrow> (\<forall>m\<in>set names. tracked (fst s') m i)) \<and>
     (\<forall>m n. m \<notin> set names \<longrightarrow> tracked (fst s) m n \<longrightarrow> tracked (fst s') m n) \<and>
     map fst (walkers (fst s')) = map fst (walkers (fst s))"
  using assms
proof (induction names arbitrary: s)
  case Nil
  then show ?case by auto
next
  case (Cons x names)
  from Cons.prems(4) obtain b1 s1 where turn: "walker_turn G rnd i x s = Inr (b1, s1)"
    by (auto split: sum.splits)
  from Cons.prems(2) have trx: "tracked (fst s) x (i - 1)"
    by simp
  note t = walker_turn_tracked [OF turn trx Cons.prems(3)]
  show ?case
  proof (cases b1)
    case False
    with turn Cons.prems(4) have s': "s' = s1" and b: "\<not> b"
      by simp_all
    have "\<forall>m\<in>set (x # names). tracked (fst s1) m (i - 1)"
    proof
      fix m
      assume m: "m \<in> set (x # names)"
      show "tracked (fst s1) m (i - 1)"
      proof (cases "m = x")
        case True
        with t(1) False show ?thesis by simp
      next
        case neq: False
        moreover from m neq Cons.prems(2) have "tracked (fst s) m (i - 1)"
          by simp
        ultimately show ?thesis
          by (rule t(2))
      qed
    qed
    moreover have "\<forall>m n. m \<notin> set (x # names) \<longrightarrow> tracked (fst s) m n \<longrightarrow> tracked (fst s1) m n"
    proof (intro allI impI)
      fix m n
      assume out: "m \<notin> set (x # names)" and tr: "tracked (fst s) m n"
      from out have "m \<noteq> x"
        by simp
      from t(2) [OF this tr] show "tracked (fst s1) m n" .
    qed
    ultimately show ?thesis
      using b t(3) by (simp add: s')
  next
    case True
    with turn Cons.prems(4) have rest: "run_walkers G rnd i names s1 = Inr (b, s')"
      by simp
    from Cons.prems(1) have x: "x \<notin> set names" and d: "distinct names"
      by simp_all
    have "\<forall>m\<in>set names. tracked (fst s1) m (i - 1)"
    proof
      fix m
      assume m: "m \<in> set names"
      with x have "m \<noteq> x"
        by auto
      moreover from m Cons.prems(2) have "tracked (fst s) m (i - 1)"
        by simp
      ultimately show "tracked (fst s1) m (i - 1)"
        by (rule t(2))
    qed
    from Cons.IH [OF d this Cons.prems(3) rest] have ih:
      "\<forall>m\<in>set names. tracked (fst s') m (i - 1) \<or> tracked (fst s') m i"
      "b \<longrightarrow> (\<forall>m\<in>set names. tracked (fst s') m i)"
      "\<forall>m n. m \<notin> set names \<longrightarrow> tracked (fst s1) m n \<longrightarrow> tracked (fst s') m n"
      "map fst (walkers (fst s')) = map fst (walkers (fst s1))"
      by simp_all
    from t(1) True have "tracked (fst s1) x i"
      by simp
    with ih(3) x have x': "tracked (fst s') x i"
      by blast
    have other: "\<forall>m n. m \<notin> set (x # names) \<longrightarrow> tracked (fst s) m n \<longrightarrow> tracked (fst s') m n"
    proof (intro allI impI)
      fix m n
      assume out: "m \<notin> set (x # names)" and tr: "tracked (fst s) m n"
      from out have "m \<noteq> x" "m \<notin> set names"
        by simp_all
      from t(2) [OF this(1) tr] ih(3) this(2) show "tracked (fst s') m n"
        by blast
    qed
    from x' ih(1,2) other ih(4) t(3) show ?thesis
      by auto
  qed
qed

lemma run_steps_tracked:
  assumes "1 \<le> a" "distinct (map fst (walkers (fst s)))"
    "\<forall>m\<in>fst ` set (walkers (fst s)). tracked (fst s) m (a - 1)"
    "run_steps G rnd [a..N] s = Inr (b, s')"
  shows "\<forall>m\<in>fst ` set (walkers (fst s)). \<exists>n. tracked (fst s') m n \<and> (b \<longrightarrow> n = max (a - 1) N)"
  using assms
proof (induction "nat (N + 1 - a)" arbitrary: a s)
  case 0
  then have "[a..N] = []"
    by simp
  with "0.prems"(4) have "s' = s" "b"
    by simp_all
  moreover from 0 have "max (a - 1) N = a - 1"
    by simp
  ultimately show ?case
    using "0.prems"(3) by auto
next
  case (Suc d)
  then have le: "a \<le> N"
    by simp
  then have steps: "[a..N] = a # [a + 1..N]"
    by (simp add: upto_rec1)
  let ?K = "map fst (walkers (fst s))"
  from Suc.prems(4) steps obtain b1 s1 where w: "run_walkers G rnd a ?K s = Inr (b1, s1)"
    by (auto split: sum.splits)
  from Suc.prems(3) have "\<forall>m\<in>set ?K. tracked (fst s) m (a - 1)"
    by simp
  from run_walkers_tracked [OF Suc.prems(2) this Suc.prems(1) w] have r:
    "\<forall>m\<in>set ?K. tracked (fst s1) m (a - 1) \<or> tracked (fst s1) m a"
    "b1 \<longrightarrow> (\<forall>m\<in>set ?K. tracked (fst s1) m a)"
    "map fst (walkers (fst s1)) = ?K"
    by simp_all
  show ?case
  proof (cases b1)
    case False
    with w steps Suc.prems(4) have "s' = s1" "\<not> b"
      by simp_all
    with r(1) show ?thesis
      by auto
  next
    case True
    with w steps Suc.prems(4) have rest: "run_steps G rnd [a + 1..N] s1 = Inr (b, s')"
      by simp
    have keys: "fst ` set (walkers (fst s1)) = fst ` set (walkers (fst s))"
      using arg_cong [OF r(3), of set] by simp
    have "\<forall>m\<in>fst ` set (walkers (fst s1)). tracked (fst s1) m (a + 1 - 1)"
      using True r(2) keys by simp
    moreover have "distinct (map fst (walkers (fst s1)))"
      using Suc.prems(2) r(3) by simp
    moreover have "d = nat (N + 1 - (a + 1))"
      using Suc.hyps(2) by simp
    moreover have "1 \<le> a + 1"
      using Suc.prems(1) by simp
    ultimately have
      "\<forall>m\<in>fst ` set (walkers (fst s1)). \<exists>n. tracked (fst s') m n \<and> (b \<longrightarrow> n = max (a + 1 - 1) N)"
      using rest by (intro Suc.hyps(1))
    moreover from le have "max (a + 1 - 1) N = max (a - 1) N"
      by simp
    ultimately show ?thesis
      using keys by simp
  qed
qed

text \<open>
  The state in which a run starts: the walkers are registered under distinct names, none
  has escaped, and the bookkeeping is as \<^verbatim>\<open>add_walker\<close> and \<^verbatim>\<open>reset\<close> leave it.
\<close>

definition fresh :: "simulation \<Rightarrow> bool" where
  "fresh sim \<longleftrightarrow>
     distinct (map fst (walkers sim)) \<and>
     (\<forall>(name, w)\<in>set (walkers sim).
        \<not> escaped w \<and> escape_times sim name = Some None \<and> name \<in> dom (crosses_y sim) \<and>
        map_of (total_dict sim) name = Some [])"

lemma fresh_tracked:
  assumes "fresh sim" "name \<in> fst ` set (walkers sim)"
  shows "tracked sim name 0"
proof -
  from assms(2) obtain w where m: "(name, w) \<in> set (walkers sim)"
    by auto
  with assms(1) have "map_of (walkers sim) name = Some w"
    by (simp add: fresh_def)
  moreover from m assms(1) have "\<not> escaped w" "escape_times sim name = Some None"
    "name \<in> dom (crosses_y sim)" "map_of (total_dict sim) name = Some []"
    by (auto simp: fresh_def)
  ultimately show ?thesis
    by (simp add: tracked_def)
qed

text \<open>
  The escape-time fields of a table, read off the recorded distances: they are all
  \<^verbatim>\<open>None\<close> when no record lies beyond the radius 10; and when the record of step \<open>f\<close> is the
  first that does, the fields before it are \<^verbatim>\<open>None\<close> and the fields from it on hold \<open>f - 1\<close>,
  the last step at which the walker had not escaped (\<^verbatim>\<open>None\<close> when \<open>f\<close> is the first step).
\<close>

definition escape_fields_ok :: "run_table \<Rightarrow> bool" where
  "escape_fields_ok steps \<longleftrightarrow>
     ((\<forall>x\<in>set steps. distance_from_origin (snd x) \<le> 10) \<longrightarrow>
        (\<forall>x\<in>set steps. escape_time (snd x) = None)) \<and>
     (\<forall>A x B. steps = A @ x # B \<and> (\<forall>a\<in>set A. distance_from_origin (snd a) \<le> 10) \<and>
         10 < distance_from_origin (snd x) \<longrightarrow>
        (\<forall>a\<in>set A. escape_time (snd a) = None) \<and>
        (\<forall>y\<in>set (x # B). escape_time (snd y) = (if fst x = 1 then None else Some (fst x - 1))))"

lemma tracked_fields_ok:
  assumes "map fst steps = [1..n]" "escape_fields_from (None, False) steps"
  shows "escape_fields_ok steps"
  unfolding escape_fields_ok_def
proof (intro conjI impI allI)
  assume "\<forall>x\<in>set steps. distance_from_origin (snd x) \<le> 10"
  from fields_before_escape [OF _ this assms(2)]
  show "\<forall>x\<in>set steps. escape_time (snd x) = None"
    by simp
next
  fix A x B
  assume h: "steps = A @ x # B \<and> (\<forall>a\<in>set A. distance_from_origin (snd a) \<le> 10) \<and>
      10 < distance_from_origin (snd x)"
  with assms have keys: "map fst (A @ x # B) = [1..n]"
    and fields: "escape_fields_from (None, False) (A @ x # B)"
    by simp_all
  from h fields_around_escape [OF fields] have
    around: "(\<forall>a\<in>set A. escape_time (snd a) = None) \<and>
     (\<forall>y\<in>set (x # B). escape_time (snd y) = (if A = [] then None else Some (fst (last A))))"
    by blast
  then show "\<forall>a\<in>set A. escape_time (snd a) = None"
    by blast
  have "(if A = [] then None else Some (fst (last A))) = (if fst x = 1 then None else Some (fst x - 1))"
    using key_at_split [OF keys] by (cases "A = []") simp_all
  with around show "\<forall>y\<in>set (x # B). escape_time (snd y) = (if fst x = 1 then None else Some (fst x - 1))"
    by simp
qed

text \<open>The starting state is the one the program sets up.\<close>

lemma fresh_new_simulation: "fresh (new_simulation n)"
  by (simp add: fresh_def new_simulation_fields)

lemma fresh_add_walker:
  assumes "fresh sim" "\<not> escaped w"
  shows "fresh (add_walker sim w)"
proof -
  let ?name = "new_walker_name sim w"
  have new: "?name \<notin> fst ` set (walkers sim)"
    by (rule new_walker_name_fresh)
  have "\<not> escaped v \<and> escape_times (add_walker sim w) n = Some None \<and>
      n \<in> dom (crosses_y (add_walker sim w)) \<and> map_of (total_dict (add_walker sim w)) n = Some []"
    if "(n, v) \<in> set (walkers (add_walker sim w))" for n v
  proof (cases "n = ?name")
    case True
    with that new have "v = w"
      by (auto simp: walkers_add_walker rev_image_eqI)
    with True assms(2) show ?thesis
      by (simp add: add_walker_def Let_def map_of_dict_set)
  next
    case False
    with that have "(n, v) \<in> set (walkers sim)"
      by (simp add: walkers_add_walker)
    with assms(1) False show ?thesis
      by (auto simp: fresh_def add_walker_def Let_def map_of_dict_set)
  qed
  moreover from assms(1) new have "distinct (map fst (walkers (add_walker sim w)))"
    by (simp add: fresh_def walkers_add_walker)
  ultimately show ?thesis
    unfolding fresh_def by blast
qed

lemma map_of_constant:
  "n \<in> fst ` set ws \<Longrightarrow> map_of (map (\<lambda>(walker_name, w). (walker_name, c)) ws) n = Some c"
  by (induction ws) auto

lemma map_fst_relabel: "map fst (map (\<lambda>(walker_name, w). (walker_name, g w)) ws) = map fst ws"
  by (induction ws) auto

lemma fresh_reset:
  assumes "distinct (map fst (walkers sim))"
  shows "fresh (reset sim)"
proof -
  let ?ws = "map (\<lambda>(walker_name, w). (walker_name, reset_walker w)) (walkers sim)"
  have "\<not> escaped v \<and> escape_times (reset sim) n = Some None \<and>
      n \<in> dom (crosses_y (reset sim)) \<and> map_of (total_dict (reset sim)) n = Some []"
    if "(n, v) \<in> set (walkers (reset sim))" for n v
  proof -
    from that have m: "(n, v) \<in> set ?ws"
      by (simp add: reset_def Let_def)
    then have "n \<in> fst ` set ?ws"
      by force
    moreover have "\<not> escaped (reset_walker u)" for u
      by (simp add: reset_walker_def Let_def)
    with m have "\<not> escaped v"
      by auto
    ultimately show ?thesis
      by (simp add: reset_def Let_def map_of_constant domIff del: map_map)
  qed
  moreover have "distinct (map fst (walkers (reset sim)))"
    using assms by (simp add: reset_def Let_def map_fst_relabel del: map_map)
  ultimately show ?thesis
    unfolding fresh_def by blast
qed

text \<open>
  The tables at the end of a run from a starting state, whether the run ends with \<^verbatim>\<open>True\<close>
  or is aborted.
\<close>

lemma run_tables:
  assumes "fresh sim" and "run_simulation G rnd sim k = Inr (b, s')"
    and name: "name \<in> fst ` set (walkers sim)"
  shows "\<exists>steps n. map_of (total_dict (fst s')) name = Some steps \<and> map fst steps = [1..n] \<and>
     (b \<longrightarrow> n = max 0 (num_moves sim)) \<and> escape_fields_from (None, False) steps"
proof -
  from assms(1) have "distinct (map fst (walkers (fst (sim, k))))"
    by (simp add: fresh_def)
  moreover have "\<forall>m\<in>fst ` set (walkers (fst (sim, k))). tracked (fst (sim, k)) m (1 - 1)"
    using fresh_tracked [OF assms(1)] by simp
  moreover have "run_steps G rnd [1..num_moves sim] (sim, k) = Inr (b, s')"
    using assms(2) by (simp add: run_simulation_def)
  ultimately have "\<forall>m\<in>fst ` set (walkers (fst (sim, k))).
      \<exists>n. tracked (fst s') m n \<and> (b \<longrightarrow> n = max (1 - 1) (num_moves sim))"
    by (intro run_steps_tracked) simp_all
  with name obtain n where "tracked (fst s') name n" "b \<longrightarrow> n = max 0 (num_moves sim)"
    by auto
  then show ?thesis
    by (auto simp: tracked_def)
qed

text \<open>
  Claim C2, as the code has it. In every run from a starting state, whether it ends with
  \<^verbatim>\<open>True\<close> or is aborted, the table of every walker holds the records of the steps 1 to \<open>n\<close>
  in order (\<open>n\<close> is the budget when the run ends with \<^verbatim>\<open>True\<close>), and the field
  \<^verbatim>\<open>escape time\<close> of the step-\<open>i\<close> record is \<^verbatim>\<open>None\<close> as long as the walker has not escaped; once
  it has escaped (its distance from the origin exceeded 10 at step \<open>i\<close> or before), the
  field holds the escape time: the index of the last step at which the walker had not yet
  escaped, \<^verbatim>\<open>None\<close> when it escaped at the first step.
\<close>

theorem escape_time_field_of_records:
  assumes "fresh sim" and "run_simulation G rnd sim k = Inr (b, s')"
  shows "\<forall>name\<in>fst ` set (walkers sim). \<exists>steps n.
     map_of (total_dict (fst s')) name = Some steps \<and> map fst steps = [1..n] \<and>
     (b \<longrightarrow> n = max 0 (num_moves sim)) \<and> escape_fields_ok steps"
proof
  fix name
  assume "name \<in> fst ` set (walkers sim)"
  from run_tables [OF assms this]
  show "\<exists>steps n. map_of (total_dict (fst s')) name = Some steps \<and> map fst steps = [1..n] \<and>
     (b \<longrightarrow> n = max 0 (num_moves sim)) \<and> escape_fields_ok steps"
    using tracked_fields_ok by blast
qed


subsection \<open>A run through a gate\<close>

text \<open>
  A StraightWalker whose every draw is \<open>1/2\<close> steps to the right, for \<open>n\<close> steps. On its way
  lies the unit-square entrance, with lower left corner \<open>(x, -1/2)\<close>, of a gate whose exit
  \<open>(20, 0)\<close> lies beyond the radius 10.
\<close>

definition straight_to_gate :: "real \<Rightarrow> int \<Rightarrow> simulation" where
  "straight_to_gate x n =
     (add_walker (new_simulation n) (new_walker StraightWalker))
       \<lparr>enchanted_gates :=
          [\<lparr>entrance_location = (x, - 1 / 2), exit_location = (20, 0),
            gate_width = 1, gate_height = 1\<rparr>]\<rparr>"

definition half_draws :: rng where
  "half_draws n = 1 / 2"

text \<open>Three steps; the second meets the entrance.\<close>

definition gate_ahead :: simulation where
  "gate_ahead = straight_to_gate (3 / 2) 3"

lemma straight_to_gate_fields:
  "walkers (straight_to_gate x n) = [(''StraightWalker1'', new_walker StraightWalker)]"
  "walkers_interaction (straight_to_gate x n) = None"
  "num_moves (straight_to_gate x n) = n"
  "waters (straight_to_gate x n) = []" "sands (straight_to_gate x n) = []"
  "grasses (straight_to_gate x n) = []"
  "obstacles (straight_to_gate x n) = []"
  "enchanted_gates (straight_to_gate x n) =
     [\<lparr>entrance_location = (x, - 1 / 2), exit_location = (20, 0),
       gate_width = 1, gate_height = 1\<rparr>]"
  "escape_times (straight_to_gate x n) = Map.empty(''StraightWalker1'' \<mapsto> None)"
  "crosses_y (straight_to_gate x n) = Map.empty(''StraightWalker1'' \<mapsto> - 1)"
  "total_dict (straight_to_gate x n) = [(''StraightWalker1'', [])]"
  by (simp_all add: straight_to_gate_def walkers_first add_walker_def Let_def name_first
      new_simulation_fields)

lemma straight_to_gate_fresh: "fresh (straight_to_gate x n)"
  by (simp add: fresh_def straight_to_gate_fields new_walker_def)

lemma collision_loop_free:
  "obstacles sim = [] \<Longrightarrow> collision_loop G rnd sim name a w k = Inr (True, w, k)"
  by (subst collision_loop.simps) (simp add: check_collision_def)

lemma beyond_radius_iff: "beyond_radius w \<longleftrightarrow> 100 < (pos_x w)\<^sup>2 + (pos_y w)\<^sup>2"
proof -
  have "10 < sqrt ((pos_x w)\<^sup>2 + (pos_y w)\<^sup>2) \<longleftrightarrow> sqrt (10\<^sup>2) < sqrt ((pos_x w)\<^sup>2 + (pos_y w)\<^sup>2)"
    by simp
  also have "\<dots> \<longleftrightarrow> 10\<^sup>2 < (pos_x w)\<^sup>2 + (pos_y w)\<^sup>2"
    by (rule real_sqrt_less_iff)
  finally show ?thesis
    by (simp add: beyond_radius_def)
qed

lemma escape_check_squares:
  "escape_check w =
     (100 < (pos_x w)\<^sup>2 + (pos_y w)\<^sup>2 \<or> escaped w,
      if 100 < (pos_x w)\<^sup>2 + (pos_y w)\<^sup>2 \<or> escaped w then w\<lparr>escaped := True\<rparr> else w)"
  using escape_check_result [of w] by (simp add: beyond_radius_iff)

lemma gate_ahead_run:
  "\<exists>s' steps. run_simulation box_geometry half_draws gate_ahead 0 = Inr (True, s') \<and>
     map_of (total_dict (fst s')) ''StraightWalker1'' = Some steps \<and>
     map (\<lambda>x. (fst x, locations (snd x), escape_time (snd x))) steps =
       [(1, (1, 0), None), (2, (20, 0), Some 1), (3, (21, 0), Some 1)]"
  by (simp add: run_simulation_def upto.simps walker_turn_def first_move_def choose_move_def
      move_def choice_def randbelow_def cardinal_directions_def step_by_def snapshot_def
      terrain_check_def handle_terrain_def collision_loop_free gate_check_def box_geometry_def
      box_of_def gate_get_boundary_def axis_window_def set_position_def get_location_def
      get_prev_location_def bookkeeping_def sim_escape_check_def escape_check_squares
      cross_y_check_def simulation_results_update_def store_def Let_def gate_ahead_def
      straight_to_gate_fields new_walker_def half_draws_def)

text \<open>
  Claim C2 as stated asks for the current escape time in the field while the walker has
  not escaped and for \<^verbatim>\<open>None\<close> afterwards. In this run the walker has not escaped at step 1,
  where its escape time is 1 and the field is \<^verbatim>\<open>None\<close>; it has escaped at the steps 2 and 3,
  where the field is 1.
\<close>

theorem escape_time_field_counterexample:
  "\<exists>s' steps. run_simulation box_geometry half_draws gate_ahead 0 = Inr (True, s') \<and>
     map_of (total_dict (fst s')) ''StraightWalker1'' = Some steps \<and>
     map (\<lambda>x. (fst x, locations (snd x), escape_time (snd x))) steps =
       [(1, (1, 0), None), (2, (20, 0), Some 1), (3, (21, 0), Some 1)]"
  by (rule gate_ahead_run)

text \<open>The same run, as an instance of the theorem.\<close>

theorem escape_time_field_of_records_witness:
  "\<exists>s' steps. run_simulation box_geometry half_draws gate_ahead 0 = Inr (True, s') \<and>
     map_of (total_dict (fst s')) ''StraightWalker1'' = Some steps \<and>
     map fst steps = [1..3] \<and> escape_fields_ok steps"
proof -
  have f: "fresh gate_ahead"
    by (simp add: gate_ahead_def straight_to_gate_fresh)
  from gate_ahead_run obtain s' where
    run: "run_simulation box_geometry half_draws gate_ahead 0 = Inr (True, s')"
    by blast
  from escape_time_field_of_records [OF f run] show ?thesis
    using run by (simp add: gate_ahead_def straight_to_gate_fields)
qed

section \<open>Average escape time\<close>

subsection \<open>The reduction over the recorded escape times\<close>







subsection \<open>The table of a run\<close>










subsection \<open>The reduction as claim C3 states it\<close>













end
